theory Spec2Isabelle
  imports Complex_Main "HOL-Library.AList"
begin

section \<open>Exceptions, dictionaries and the call trace\<close>

text \<open>
  The Python exceptions that train.py raises, catches or lets through. All of them are
  subclasses of \<open>Exception\<close>; \<open>OtherException\<close> stands for any further subclass
  (a model bug, a malformed batch). The string is \<open>str(e)\<close>.
\<close>

datatype exn =
    RuntimeError string
  | OverflowError string
  | AttributeError string
  | KeyError string
  | IndexError
  | ZeroDivisionError
  | OtherException string

text \<open>\<open>pat in s\<close> on Python strings: \<open>pat\<close> occurs in \<open>s\<close> as a contiguous piece.\<close>

primrec str_contains :: "string \<Rightarrow> string \<Rightarrow> bool" where
  "str_contains [] pat = (pat = [])"
| "str_contains (c # cs) pat = (take (length pat) (c # cs) = pat \<or> str_contains cs pat)"

text \<open>The test of both handlers: a \<open>RuntimeError\<close> whose text has 'out of memory'.\<close>

fun is_oom :: "exn \<Rightarrow> bool" where
  "is_oom (RuntimeError msg) = str_contains msg ''out of memory''"
| "is_oom _ = False"

text \<open>
  A logging output is a Python dict from names to numbers, kept in insertion order.
  \<open>d.update(d')\<close> stores every item of \<open>d'\<close> into \<open>d\<close>; \<open>d.get(k, dflt)\<close> reads with
  a default.
\<close>

type_synonym logging_output = "(string \<times> real) list"

definition dict_update :: "('k \<times> 'v) list \<Rightarrow> ('k \<times> 'v) list \<Rightarrow> ('k \<times> 'v) list" where
  "dict_update d d' = fold (\<lambda>(k, v). AList.update k v) d' d"

definition dict_get :: "('k \<times> 'v) list \<Rightarrow> 'k \<Rightarrow> 'v \<Rightarrow> 'v" where
  "dict_get d k dflt = (case map_of d k of None \<Rightarrow> dflt | Some v \<Rightarrow> v)"

text \<open>
  The model, the criterion, the optimizer, the scheduler, the meters, the logger and the
  checkpoint writer are opaque collaborators of train.py. What the code does to them is
  recorded as the sequence of calls it makes, in program order.
\<close>

datatype event =
    ModelTrain
  | ModelEval
  | ModelZeroGrad
  | CriterionCall
  | LossBackward
  | ScaleClipGrad real
  | OptimizerStep
  | OptimizerZeroGrad
  | WpsStart
  | WpsStop real
  | GnormUpdate real
  | ClipUpdate real
  | OomUpdate nat
  | LogWarn string
  | LogInfo string
  | LogError exn
  | LrStep int "real option"
  | LrStepUpdate int
  | Reseed int
  | AddScalar string real int
  | Evaluate
  | TrySave
  | ResetMeters

section \<open>The trainer\<close>

text \<open>
  \<open>Trainer._buffered_stats\<close> is a \<open>defaultdict\<close> of lists with the four keys below;
  \<open>clear()\<close> empties it, after which every key reads as the empty list again.
\<close>

record buffered_stats =
  sample_sizes :: "int list"
  logging_outputs :: "logging_output list"
  ooms_fwd :: "nat list"
  ooms_bwd :: "nat list"

record trainer =
  buffered :: buffered_stats
  trace :: "event list"

definition emit :: "event \<Rightarrow> trainer \<Rightarrow> trainer" where
  "emit ev tr = tr\<lparr>trace := trace tr @ [ev]\<rparr>"

definition empty_stats :: buffered_stats where
  "empty_stats = \<lparr>sample_sizes = [], logging_outputs = [], ooms_fwd = [], ooms_bwd = []\<rparr>"

definition clear_buffered_stats :: "trainer \<Rightarrow> trainer" where
  "clear_buffered_stats tr = tr\<lparr>buffered := empty_stats\<rparr>"

text \<open>
  The sample handed to the trainer: \<open>sample['ntokens']\<close> and \<open>sample['target'].size(0)\<close>
  are the two things train.py itself reads from it.
\<close>

record sample =
  ntokens :: int
  nsentences :: int

text \<open>
  What the opaque collaborators do during one call of \<open>train_step\<close>: the result of
  \<open>self.criterion(self.model, sample)\<close> (loss, sample size, logging output) or the
  exception it raises, whether \<open>loss.backward()\<close> raises, the gradient norm returned by
  the rescale-and-clip step or the exception it raises, whether \<open>optimizer.step()\<close>
  raises, and the score \<open>trainer.evaluate\<close> returns if the control loop validates
  after this step.
\<close>

record outcome =
  criterion_res :: "exn + (real \<times> int \<times> logging_output)"
  backward_res :: "exn option"
  scale_clip_res :: "exn + real option"
  optimizer_step_res :: "exn option"
  evaluate_res :: real

definition base_logging_output :: "sample option \<Rightarrow> logging_output" where
  "base_logging_output sm =
     [(''ntokens'', case sm of None \<Rightarrow> 0 | Some s \<Rightarrow> real_of_int (ntokens s)),
      (''nsentences'', case sm of None \<Rightarrow> 0 | Some s \<Rightarrow> real_of_int (nsentences s))]"

text \<open>
  \<open>Trainer._forward(sample, eval)\<close>. The result is \<open>(loss, sample_size, logging_output,
  oom)\<close>, or the exception that leaves the method.
\<close>

definition forward ::
  "outcome \<Rightarrow> trainer \<Rightarrow> sample option \<Rightarrow> bool
   \<Rightarrow> (exn + (real option \<times> int \<times> logging_output \<times> nat)) \<times> trainer" where
  "forward oc tr sm eval =
     (let tr1 = emit (if eval then ModelEval else ModelTrain) tr;
          logging_output = base_logging_output sm
      in case sm of
           None \<Rightarrow> (Inr (None, 0, logging_output, 0), tr1)
         | Some s \<Rightarrow>
             (let tr2 = emit CriterionCall tr1
              in case criterion_res oc of
                   Inr (loss, sample_size, logging_output') \<Rightarrow>
                     (Inr (Some loss, sample_size,
                           dict_update logging_output logging_output', 0), tr2)
                 | Inl e \<Rightarrow>
                     (case e of
                        RuntimeError msg \<Rightarrow>
                          if \<not> eval \<and> str_contains msg ''out of memory''
                          then (Inr (None, 0, logging_output, 1),
                                emit (LogWarn ''Ran out of memory during forward, skipping batch'') tr2)
                          else (Inl e, tr2)
                      | _ \<Rightarrow> (Inl e, tr2))))"

text \<open>\<open>Trainer._backward(loss)\<close>: the OOM flag, or the exception that leaves the method.\<close>

definition backward :: "outcome \<Rightarrow> trainer \<Rightarrow> real option \<Rightarrow> (exn + nat) \<times> trainer" where
  "backward oc tr loss =
     (case loss of
        None \<Rightarrow> (Inr 0, tr)
      | Some l \<Rightarrow>
          (let tr1 = emit LossBackward tr
           in case backward_res oc of
                None \<Rightarrow> (Inr 0, tr1)
              | Some e \<Rightarrow>
                  (case e of
                     RuntimeError msg \<Rightarrow>
                       if str_contains msg ''out of memory''
                       then (Inr 1,
                             emit ModelZeroGrad
                               (emit (LogWarn ''Ran out of memory during backward, skipping batch'') tr1))
                       else (Inl e, tr1)
                   | _ \<Rightarrow> (Inl e, tr1))))"

text \<open>
  The command-line arguments that the modelled code reads.
\<close>

record args =
  seed :: int
  accumulate :: int
  clip_norm :: real
  eval_steps :: int
  min_lr :: "real option"
  max_epoch :: "int option"
  max_step :: "int option"
  shuffle :: int
  length_limit :: "int list option"
  train :: "string list"

text \<open>
  The class-level functions of the criterion, \<open>aggregate_logging_outputs\<close> and
  \<open>grad_denom\<close>, and the optimizer's \<open>get_lr()\<close>, whose value is fixed by the calls made
  to the collaborators so far.
\<close>

record collaborators =
  aggregate_logging_outputs :: "logging_output list \<Rightarrow> logging_output"
  grad_denom :: "int list \<Rightarrow> real"
  get_lr :: "event list \<Rightarrow> real"

text \<open>
  The body of the \<open>try\<close> block of \<open>train_step\<close>: \<open>scale_clip_grad_(grad_denom)\<close>,
  \<open>optimizer.step()\<close>, \<open>optimizer.zero_grad()\<close>, then the four meter updates. The result
  is the exception raised inside the block, if any.
\<close>

definition try_update ::
  "args \<Rightarrow> outcome \<Rightarrow> trainer \<Rightarrow> logging_output \<Rightarrow> real \<Rightarrow> nat \<Rightarrow> exn option \<times> trainer" where
  "try_update ar oc tr agg_logging_output denom ooms =
     (let tr1 = emit (ScaleClipGrad denom) tr
      in case scale_clip_res oc of
           Inl e \<Rightarrow> (Some e, tr1)
         | Inr grad_norm \<Rightarrow>
             (let tr2 = emit OptimizerStep tr1
              in case optimizer_step_res oc of
                   Some e \<Rightarrow> (Some e, tr2)
                 | None \<Rightarrow>
                     (let tr3 = emit OptimizerZeroGrad tr2;
                          tr4 = emit (WpsStop (dict_get agg_logging_output ''ntokens'' 0)) tr3;
                          tr5 = (case grad_norm of
                                   None \<Rightarrow> tr4
                                 | Some g \<Rightarrow>
                                     emit (ClipUpdate (if g > clip_norm ar then 1 else 0))
                                       (emit (GnormUpdate g) tr4))
                      in (None, emit (OomUpdate ooms) tr5))))"

definition buffer_append :: "int \<Rightarrow> logging_output \<Rightarrow> nat \<Rightarrow> nat \<Rightarrow> trainer \<Rightarrow> trainer" where
  "buffer_append sample_size logging_output oom_fwd oom_bwd tr =
     tr\<lparr>buffered :=
          \<lparr>sample_sizes = sample_sizes (buffered tr) @ [sample_size],
           logging_outputs = logging_outputs (buffered tr) @ [logging_output],
           ooms_fwd = ooms_fwd (buffered tr) @ [oom_fwd],
           ooms_bwd = ooms_bwd (buffered tr) @ [oom_bwd]\<rparr>\<rparr>"

text \<open>
  The test \<open>sum([1 for oom in ooms if oom > 0]) == len(logging_outputs)\<close> with
  \<open>ooms = [f + b for f, b in zip(ooms_fwd, ooms_bwd)]\<close>.
\<close>

definition all_updates_failed :: "buffered_stats \<Rightarrow> bool" where
  "all_updates_failed b =
     (length (filter (\<lambda>oom. oom > 0) (map (\<lambda>(f, b). f + b) (zip (ooms_fwd b) (ooms_bwd b))))
      = length (logging_outputs b))"

text \<open>
  The \<open>if update_params:\<close> branch of \<open>train_step\<close>, entered after the stats of the
  current micro-batch are buffered: the all-failed test, the aggregation, the \<open>try\<close>
  block with its \<open>except OverflowError\<close> handler, and the clearing of the buffer. Any
  other exception leaves the method from inside the \<open>try\<close> block.
\<close>

definition update_parameters ::
  "collaborators \<Rightarrow> args \<Rightarrow> outcome \<Rightarrow> trainer \<Rightarrow> (exn + logging_output option) \<times> trainer" where
  "update_parameters co ar oc tr =
     (let b = buffered tr
      in if all_updates_failed b then (Inr None, clear_buffered_stats tr)
         else
           (let agg_logging_output = aggregate_logging_outputs co (logging_outputs b);
                denom = grad_denom co (sample_sizes b)
            in case try_update ar oc tr agg_logging_output denom
                      (sum_list (ooms_fwd b) + sum_list (ooms_bwd b)) of
                 (None, tr1) \<Rightarrow> (Inr (Some agg_logging_output), clear_buffered_stats tr1)
               | (Some e, tr1) \<Rightarrow>
                   (case e of
                      OverflowError msg \<Rightarrow>
                        (Inr (Some agg_logging_output),
                         clear_buffered_stats
                           (emit (LogWarn ''Overflow detected during parameters update, {str(e)}'')
                              (emit OptimizerZeroGrad tr1)))
                    | _ \<Rightarrow> (Inl e, tr1))))"

text \<open>
  \<open>Trainer.train_step(sample, update_params)\<close>. The result is the returned value
  (\<open>None\<close> or the aggregated logging output) or the exception that leaves the method.
\<close>

definition train_step ::
  "collaborators \<Rightarrow> args \<Rightarrow> outcome \<Rightarrow> trainer \<Rightarrow> sample option \<Rightarrow> bool
   \<Rightarrow> (exn + logging_output option) \<times> trainer" where
  "train_step co ar oc tr sm update_params =
     (case forward oc (emit WpsStart tr) sm False of
        (Inl e, tr1) \<Rightarrow> (Inl e, tr1)
      | (Inr (loss, sample_size, logging_output, oom_fwd), tr1) \<Rightarrow>
          (case backward oc tr1 loss of
             (Inl e, tr2) \<Rightarrow> (Inl e, tr2)
           | (Inr oom_bwd, tr2) \<Rightarrow>
               (let tr3 = buffer_append sample_size logging_output oom_fwd oom_bwd tr2
                in if update_params then update_parameters co ar oc tr3
                   else (Inr None, tr3))))"

section \<open>Progress state and the control loop\<close>

text \<open>
  The progress counters of \<open>state.State\<close> that \<open>main\<close> reads: the epoch, the global
  step and the list of validation scores.
\<close>

record state =
  epoch :: int
  step :: int
  eval_scores :: "real list"

text \<open>
  Modelled from the spec: \<open>State.increase_num_steps\<close>, \<open>State.increase_epoch\<close> and
  \<open>State.add_valid_score\<close> live in state.py, which is not among the sources. The spec
  names them as the only mutators of the progress state: the first advances the global
  step counter, the second advances the epoch counter, the third appends one score to the
  ordered list.
\<close>

definition increase_num_steps :: "state \<Rightarrow> state" where
  "increase_num_steps st = st\<lparr>step := step st + 1\<rparr>"

definition increase_epoch :: "state \<Rightarrow> state" where
  "increase_epoch st = st\<lparr>epoch := epoch st + 1\<rparr>"

definition add_valid_score :: "real \<Rightarrow> state \<Rightarrow> state" where
  "add_valid_score v st = st\<lparr>eval_scores := eval_scores st @ [v]\<rparr>"

text \<open>What \<open>main\<close> reads from a batch: the token counts and \<open>output.size(0)\<close>.\<close>

record batch =
  n_src_tok :: int
  n_trg_tok :: int
  trg_rows :: int

text \<open>\<open>if not log_output\<close>: \<open>None\<close> and the empty dict are both falsy.\<close>

definition falsy :: "logging_output option \<Rightarrow> bool" where
  "falsy log_output = (case log_output of None \<Rightarrow> True | Some d \<Rightarrow> d = [])"

text \<open>
  The part of the loop body after a successful update: from \<open>state.increase_num_steps()\<close>
  to \<open>state.try_save()\<close>. Reading a missing key of \<open>log_output\<close> raises \<open>KeyError\<close>,
  and \<open>total_steps % args.eval_steps\<close> raises \<open>ZeroDivisionError\<close> for 0. The texts
  of the info lines are abbreviated.
\<close>

definition after_update ::
  "collaborators \<Rightarrow> args \<Rightarrow> outcome \<Rightarrow> logging_output \<Rightarrow> state \<Rightarrow> trainer
   \<Rightarrow> (exn + unit) \<times> state \<times> trainer" where
  "after_update co ar oc log_output st tr =
     (let st1 = increase_num_steps st;
          tr1 = emit (LrStepUpdate (step st1)) tr
      in case map_of log_output ''per_word_loss'' of
           None \<Rightarrow> (Inl (KeyError ''per_word_loss''), st1, tr1)
         | Some pwc \<Rightarrow>
             (let total_steps = step st1;
                  cur_lr = get_lr co (trace tr1);
                  tr2 = emit (LogInfo ''step'') tr1
              in case map_of log_output ''loss'' of
                   None \<Rightarrow> (Inl (KeyError ''loss''), st1, tr2)
                 | Some l \<Rightarrow>
                     (let tr3 = emit (AddScalar ''lr'' cur_lr total_steps)
                                  (emit (AddScalar ''loss'' l total_steps) tr2)
                      in if eval_steps ar = 0 then (Inl ZeroDivisionError, st1, tr3)
                         else if total_steps mod eval_steps ar = 0 then
                           (let val_score = evaluate_res oc
                            in (Inr (), add_valid_score val_score st1,
                                emit TrySave
                                  (emit (LogInfo ''validation'')
                                     (emit (AddScalar ''dev/bleu'' val_score total_steps)
                                        (emit Evaluate tr3)))))
                         else (Inr (), st1, emit TrySave tr3))))"

text \<open>
  The body of the \<open>for batch in ...\<close> loop of \<open>main\<close>, for one batch. \<open>continue\<close> and the
  end of the body both return normally. \<open>(state.step + 1) % args.accumulate\<close> raises
  \<open>ZeroDivisionError\<close> for 0; for other values Python's \<open>%\<close> takes the sign of the
  divisor, as \<open>mod\<close> on \<open>int\<close> does.
\<close>

definition main_step ::
  "collaborators \<Rightarrow> args \<Rightarrow> batch \<times> outcome \<Rightarrow> state \<Rightarrow> trainer
   \<Rightarrow> (exn + unit) \<times> state \<times> trainer" where
  "main_step co ar bo st tr =
     (let b = fst bo; oc = snd bo;
          tr0 = emit (Reseed (seed ar + step st)) (emit ModelTrain tr);
          sm = \<lparr>ntokens = n_trg_tok b, nsentences = trg_rows b\<rparr>
      in if accumulate ar = 0 then (Inl ZeroDivisionError, st, tr0)
         else if (step st + 1) mod accumulate ar > 0 then
           (case train_step co ar oc tr0 (Some sm) False of
              (Inl e, tr1) \<Rightarrow> (Inl e, st, tr1)
            | (Inr r, tr1) \<Rightarrow> (Inr (), st, tr1))
         else
           (case train_step co ar oc tr0 (Some sm) True of
              (Inl e, tr1) \<Rightarrow> (Inl e, st, tr1)
            | (Inr log_output, tr1) \<Rightarrow>
                if falsy log_output then (Inr (), st, tr1)
                else after_update co ar oc (the log_output) st tr1))"

text \<open>The loop body over the batches of one epoch; an exception ends it.\<close>

fun run_epoch ::
  "collaborators \<Rightarrow> args \<Rightarrow> (batch \<times> outcome) list \<Rightarrow> state \<Rightarrow> trainer
   \<Rightarrow> (exn + unit) \<times> state \<times> trainer" where
  "run_epoch co ar [] st tr = (Inr (), st, tr)"
| "run_epoch co ar (bo # bos) st tr =
     (case main_step co ar bo st tr of
        (Inl e, st1, tr1) \<Rightarrow> (Inl e, st1, tr1)
      | (Inr u, st1, tr1) \<Rightarrow> run_epoch co ar bos st1 tr1)"

definition before_epoch_callback :: "state \<Rightarrow> trainer \<Rightarrow> trainer" where
  "before_epoch_callback st tr = emit (LogInfo ''Start epoch'') tr"

text \<open>
  \<open>after_epoch_callback\<close>: the info line, \<open>state.increase_epoch()\<close>, and for a non-empty
  score list \<open>trainer.lr_step(state.epoch, -eval_score)\<close> with
  \<open>eval_score = -state.eval_scores[-1]\<close>; \<open>lr_step\<close> hands both arguments to the
  scheduler's \<open>step(epoch, val_loss)\<close>.
\<close>

definition after_epoch_callback :: "state \<Rightarrow> trainer \<Rightarrow> state \<times> trainer" where
  "after_epoch_callback st tr =
     (let tr1 = emit (LogInfo ''Finished epoch'') tr;
          st1 = increase_epoch st
      in if eval_scores st1 \<noteq> [] then
           (let eval_score = - last (eval_scores st1)
            in (st1, emit (LrStep (epoch st1) (Some (- eval_score))) tr1))
         else (st1, tr1))"

text \<open>
  \<open>args.max_epoch or math.inf\<close>: \<open>None\<close> and 0 are falsy and give infinity, here
  \<open>None\<close>; a comparison \<open>x < bound\<close> with infinity holds.
\<close>

definition or_inf :: "int option \<Rightarrow> int option" where
  "or_inf v = (case v of None \<Rightarrow> None | Some n \<Rightarrow> if n = 0 then None else Some n)"

definition below :: "int \<Rightarrow> int option \<Rightarrow> bool" where
  "below x bound = (case bound of None \<Rightarrow> True | Some m \<Rightarrow> x < m)"

text \<open>The \<open>predicate\<close> lambda handed to \<open>iterator.while_true\<close>.\<close>

definition predicate :: "collaborators \<Rightarrow> args \<Rightarrow> state \<Rightarrow> trainer \<Rightarrow> bool" where
  "predicate co ar st tr =
     ((case min_lr ar of None \<Rightarrow> True | Some m \<Rightarrow> get_lr co (trace tr) > m)
      \<and> below (epoch st) (or_inf (max_epoch ar))
      \<and> below (step st) (or_inf (max_step ar)))"

text \<open>
  How the loop ends on the epochs supplied: the predicate turned false, an exception left
  the loop, or the supplied epochs are used up while the predicate still holds.
\<close>

datatype loop_result = Finished | Raised exn | Unfinished

text \<open>
  Modelled from the spec: \<open>Iterator.while_true(predicate, before_epoch, after_epoch)\<close>
  comes from the lunas package, which is not among the sources. By the spec the loop
  evaluates the predicate before starting each new epoch, calls the before-epoch hook,
  yields the batches of the epoch and calls the after-epoch hook at its end. The loop body
  of \<open>main\<close> runs on every yielded batch. The epochs are given as the list of their
  batches.
\<close>

fun main_loop ::
  "collaborators \<Rightarrow> args \<Rightarrow> (batch \<times> outcome) list list \<Rightarrow> state \<Rightarrow> trainer
   \<Rightarrow> loop_result \<times> state \<times> trainer" where
  "main_loop co ar [] st tr = (if predicate co ar st tr then Unfinished else Finished, st, tr)"
| "main_loop co ar (ep # eps) st tr =
     (if predicate co ar st tr then
        (case run_epoch co ar ep st (before_epoch_callback st tr) of
           (Inl e, st1, tr1) \<Rightarrow> (Raised e, st1, tr1)
         | (Inr u, st1, tr1) \<Rightarrow>
             (case after_epoch_callback st1 tr1 of
                (st2, tr2) \<Rightarrow> main_loop co ar eps st2 tr2))
      else (Finished, st, tr))"



section \<open>The training pipeline\<close>

text \<open>
  The chain of lunas readers that \<open>get_train_iterator\<close> builds and hands to the
  \<open>Iterator\<close>: two \<open>TextLine\<close> readers zipped, \<open>select\<close>, an optional \<open>Shuffle\<close> with
  its \<open>shufsize\<close>, an optional \<open>where\<close> with the length limits.
\<close>

datatype dataset =
    TextLine string
  | Zip "dataset list"
  | Select dataset
  | Shuffle dataset int
  | Where dataset "int list"

text \<open>The \<open>shufsize\<close> of every \<open>Shuffle\<close> stage of a chain, outermost first.\<close>

fun shuffle_sizes :: "dataset \<Rightarrow> int list" where
  "shuffle_sizes (TextLine f) = []"
| "shuffle_sizes (Zip dss) = concat (map shuffle_sizes dss)"
| "shuffle_sizes (Select d) = shuffle_sizes d"
| "shuffle_sizes (Shuffle d n) = n # shuffle_sizes d"
| "shuffle_sizes (Where d l) = shuffle_sizes d"

text \<open>
  The dataset part of \<open>get_train_iterator(args, ...)\<close>. \<open>args.train[1]\<close> raises
  \<open>IndexError\<close> on fewer than two files; \<open>limit *= len(args.train)\<close> repeats a
  one-element limit list.
\<close>

definition get_train_iterator :: "args \<Rightarrow> exn + dataset" where
  "get_train_iterator ar =
     (if length (train ar) < 2 then Inl IndexError
      else
        (let ds0 = Select (Zip [TextLine (train ar ! 0), TextLine (train ar ! 1)]);
             ds1 = (if shuffle ar \<noteq> 0 then Shuffle ds0 (shuffle ar) else ds0);
             limit = (case length_limit ar of
                        None \<Rightarrow> None
                      | Some l \<Rightarrow>
                          if length l = 1 then Some (concat (replicate (length (train ar)) l))
                          else Some l)
         in Inr (case limit of None \<Rightarrow> ds1 | Some l \<Rightarrow> Where ds1 l)))"

section \<open>Configuration override\<close>

text \<open>
  Attribute values of a configuration namespace, and the namespace's \<open>__dict__\<close> in
  insertion order. Namespaces are objects: a heap lists them by address, a reference is
  \<open>None\<close> or the address of a namespace. Attribute values are kept by value; \<open>override\<close>
  never mutates one.
\<close>

datatype pyval = PNone | PInt int | PBool bool | PStr string | PList "pyval list"

type_synonym namespace = "(string \<times> pyval) list"

type_synonym heap = "namespace list"

datatype ref = NoneRef | NsRef nat

text \<open>\<open>copy.deepcopy\<close>: \<open>None\<close> is itself, a namespace is copied to a new address.\<close>

definition deepcopy :: "heap \<Rightarrow> ref \<Rightarrow> heap \<times> ref" where
  "deepcopy h r = (case r of NoneRef \<Rightarrow> (h, NoneRef) | NsRef a \<Rightarrow> (h @ [h ! a], NsRef (length h)))"

text \<open>\<open>setattr(obj, k, v)\<close> on the namespace at address \<open>a\<close>.\<close>

definition setattr :: "heap \<Rightarrow> nat \<Rightarrow> string \<Rightarrow> pyval \<Rightarrow> heap" where
  "setattr h a k v = h[a := AList.update k v (h ! a)]"

text \<open>
  The \<open>for k, v in config_from.__dict__.items()\<close> loop, over the items still to visit,
  writing to the namespace at address \<open>a\<close>. \<open>getattr(config_to, k)\<close> raises
  \<open>AttributeError\<close> for an attribute that \<open>config_to\<close> lacks.
\<close>

fun override_items :: "bool \<Rightarrow> nat \<Rightarrow> namespace \<Rightarrow> heap \<Rightarrow> (exn + unit) \<times> heap" where
  "override_items only_override_null a [] h = (Inr (), h)"
| "override_items only_override_null a ((k, v) # kvs) h =
     (if v = PNone then override_items only_override_null a kvs h
      else if only_override_null then
        (case map_of (h ! a) k of
           None \<Rightarrow> (Inl (AttributeError k), h)
         | Some cur \<Rightarrow>
             if cur = PNone then override_items only_override_null a kvs (setattr h a k v)
             else override_items only_override_null a kvs h)
      else override_items only_override_null a kvs (setattr h a k v))"

text \<open>
  \<open>override(config_to, config_from, only_override_null)\<close>. A namespace is always truthy,
  so \<open>not config_from\<close> holds for \<open>None\<close> only.
\<close>

definition override :: "heap \<Rightarrow> ref \<Rightarrow> ref \<Rightarrow> bool \<Rightarrow> (exn + ref) \<times> heap" where
  "override h config_to config_from only_override_null =
     (case deepcopy h config_to of
        (h1, to') \<Rightarrow>
          (case deepcopy h1 config_from of
             (h2, from') \<Rightarrow>
               (case from' of
                  NoneRef \<Rightarrow> (Inr to', h2)
                | NsRef af \<Rightarrow>
                    (case to' of
                       NoneRef \<Rightarrow> (Inr from', h2)
                     | NsRef ato \<Rightarrow>
                         (case override_items only_override_null ato (h2 ! af) h2 of
                            (Inl e, h3) \<Rightarrow> (Inl e, h3)
                          | (Inr u, h3) \<Rightarrow> (Inr to', h3))))))"

section \<open>Conditions on a call\<close>

text \<open>
  The three stat lists that the all-failed test reads have one entry per buffered
  micro-batch.
\<close>

definition aligned :: "buffered_stats \<Rightarrow> bool" where
  "aligned b = (length (ooms_fwd b) = length (logging_outputs b)
                \<and> length (ooms_bwd b) = length (logging_outputs b))"

text \<open>Every buffered micro-batch has an OOM flag set, in the forward or the backward pass.\<close>

definition window_all_oom :: "buffered_stats \<Rightarrow> bool" where
  "window_all_oom b = (aligned b \<and> list_all (\<lambda>(f, g). f + g > 0) (zip (ooms_fwd b) (ooms_bwd b)))"

text \<open>
  The current micro-batch runs out of memory: in the criterion, or in \<open>loss.backward()\<close>
  after the criterion returned.
\<close>

definition oom_call :: "outcome \<Rightarrow> bool" where
  "oom_call oc =
     (case criterion_res oc of
        Inl e \<Rightarrow> is_oom e
      | Inr x \<Rightarrow> (case backward_res oc of None \<Rightarrow> False | Some e \<Rightarrow> is_oom e))"

text \<open>The type test of the handler \<open>except OverflowError\<close>.\<close>

definition is_overflow :: "exn \<Rightarrow> bool" where
  "is_overflow e = (case e of OverflowError msg \<Rightarrow> True | _ \<Rightarrow> False)"

text \<open>
  An \<open>OverflowError\<close> is raised inside the \<open>try\<close> block: by the rescale-and-clip step,
  or by \<open>optimizer.step()\<close> after the rescale-and-clip step returned.
\<close>

definition update_overflows :: "outcome \<Rightarrow> bool" where
  "update_overflows oc =
     (case scale_clip_res oc of
        Inl e \<Rightarrow> is_overflow e
      | Inr g \<Rightarrow> (case optimizer_step_res oc of None \<Rightarrow> False | Some e \<Rightarrow> is_overflow e))"

section \<open>Concrete inputs\<close>

text \<open>
  A criterion whose aggregation sums the token counts and reports a loss, with the sum of
  the sample sizes as gradient denominator, and an optimizer with constant learning rate.
\<close>

definition sum_collaborators :: collaborators where
  "sum_collaborators =
     \<lparr>aggregate_logging_outputs =
        (\<lambda>los. [(''ntokens'', sum_list (map (\<lambda>d. dict_get d ''ntokens'' 0) los)),
                (''per_word_loss'', 1), (''loss'', 1)]),
      grad_denom = (\<lambda>ss. real_of_int (sum_list ss)),
      get_lr = (\<lambda>evs. 1)\<rparr>"

definition args2 :: args where
  "args2 = \<lparr>seed = 1, accumulate = 2, clip_norm = 5, eval_steps = 10, min_lr = None,
            max_epoch = Some 2, max_step = None, shuffle = 0, length_limit = None,
            train = [''train.src'', ''train.trg'']\<rparr>"

definition good :: outcome where
  "good = \<lparr>criterion_res = Inr (2, 10, [(''loss'', 2)]), backward_res = None,
           scale_clip_res = Inr (Some 3), optimizer_step_res = None, evaluate_res = 30\<rparr>"

definition trainer0 :: trainer where
  "trainer0 = \<lparr>buffered = empty_stats, trace = []\<rparr>"

definition state0 :: state where
  "state0 = \<lparr>epoch = 0, step = 0, eval_scores = []\<rparr>"

definition batch0 :: batch where
  "batch0 = \<lparr>n_src_tok = 8, n_trg_tok = 7, trg_rows = 2\<rparr>"

section \<open>Auxiliary facts\<close>

text \<open>
  The trainer's two fields under \<open>emit\<close> and \<open>clear_buffered_stats\<close>, and the forward and
  backward pass on a sample in training mode, in closed form.
\<close>

lemma buffered_emit: "buffered (emit ev tr) = buffered tr"
  by (simp add: emit_def)

lemma trace_emit: "trace (emit ev tr) = trace tr @ [ev]"
  by (simp add: emit_def)

lemma buffered_clear: "buffered (clear_buffered_stats tr) = empty_stats"
  by (simp add: clear_buffered_stats_def)

lemma trace_clear: "trace (clear_buffered_stats tr) = trace tr"
  by (simp add: clear_buffered_stats_def)

lemma forward_train:
  "forward oc tr (Some s) False =
     (case criterion_res oc of
        Inr (l, ss, lo) \<Rightarrow>
          (Inr (Some l, ss, dict_update (base_logging_output (Some s)) lo, 0),
           tr\<lparr>trace := trace tr @ [ModelTrain, CriterionCall]\<rparr>)
      | Inl e \<Rightarrow>
          if is_oom e
          then (Inr (None, 0, base_logging_output (Some s), 1),
                tr\<lparr>trace := trace tr @ [ModelTrain, CriterionCall,
                      LogWarn ''Ran out of memory during forward, skipping batch'']\<rparr>)
          else (Inl e, tr\<lparr>trace := trace tr @ [ModelTrain, CriterionCall]\<rparr>))"
proof (cases "criterion_res oc")
  case (Inl e)
  then show ?thesis by (cases e) (simp_all add: forward_def emit_def Let_def)
next
  case (Inr x)
  then show ?thesis by (cases x) (simp add: forward_def emit_def Let_def)
qed

lemma backward_some:
  "backward oc tr (Some l) =
     (case backward_res oc of
        None \<Rightarrow> (Inr 0, tr\<lparr>trace := trace tr @ [LossBackward]\<rparr>)
      | Some e \<Rightarrow>
          if is_oom e
          then (Inr 1, tr\<lparr>trace := trace tr @ [LossBackward,
                      LogWarn ''Ran out of memory during backward, skipping batch'', ModelZeroGrad]\<rparr>)
          else (Inl e, tr\<lparr>trace := trace tr @ [LossBackward]\<rparr>))"
proof (cases "backward_res oc")
  case None
  then show ?thesis by (simp add: backward_def emit_def Let_def)
next
  case (Some e)
  then show ?thesis by (cases e) (simp_all add: backward_def emit_def Let_def)
qed

lemma backward_none: "backward oc tr None = (Inr 0, tr)"
  by (simp add: backward_def)

lemma forward_buffered: "buffered (snd (forward oc tr sm ev)) = buffered tr"
proof (cases sm)
  case None
  then show ?thesis by (simp add: forward_def Let_def buffered_emit)
next
  case (Some s)
  show ?thesis
  proof (cases "criterion_res oc")
    case (Inl e)
    with Some show ?thesis by (cases e) (simp_all add: forward_def Let_def buffered_emit)
  next
    case (Inr x)
    with Some show ?thesis by (cases x) (simp add: forward_def Let_def buffered_emit)
  qed
qed

lemma backward_buffered: "buffered (snd (backward oc tr loss)) = buffered tr"
proof (cases loss)
  case None
  then show ?thesis by (simp add: backward_def)
next
  case (Some l)
  show ?thesis
  proof (cases "backward_res oc")
    case None
    with Some show ?thesis by (simp add: backward_def Let_def buffered_emit)
  next
    case (Some e)
    with \<open>loss = Some l\<close> show ?thesis
      by (cases e) (simp_all add: backward_def Let_def buffered_emit)
  qed
qed

lemma try_update_buffered: "buffered (snd (try_update ar oc tr agg d n)) = buffered tr"
  by (simp add: try_update_def Let_def buffered_emit split: sum.splits option.splits)

text \<open>
  A call of \<open>train_step\<close> that returns has buffered the stats of one micro-batch and then,
  with \<open>update_params\<close>, gone through the update branch.
\<close>

lemma update_parameters_returns:
  assumes "update_parameters co ar oc tr = (Inr r, tr')"
  shows "buffered tr' = empty_stats
         \<and> (r = None \<or> r = Some (aggregate_logging_outputs co (logging_outputs (buffered tr))))"
proof (cases "all_updates_failed (buffered tr)")
  case True
  with assms show ?thesis by (auto simp: update_parameters_def Let_def buffered_clear)
next
  case False
  obtain x tr1 where tu:
    "try_update ar oc tr (aggregate_logging_outputs co (logging_outputs (buffered tr)))
       (grad_denom co (sample_sizes (buffered tr)))
       (sum_list (ooms_fwd (buffered tr)) + sum_list (ooms_bwd (buffered tr))) = (x, tr1)"
    by (cases "try_update ar oc tr (aggregate_logging_outputs co (logging_outputs (buffered tr)))
       (grad_denom co (sample_sizes (buffered tr)))
       (sum_list (ooms_fwd (buffered tr)) + sum_list (ooms_bwd (buffered tr)))")
  show ?thesis
  proof (cases x)
    case None
    with assms False tu show ?thesis
      by (auto simp: update_parameters_def Let_def buffered_clear)
  next
    case (Some e)
    with assms False tu show ?thesis
      by (cases e) (auto simp: update_parameters_def Let_def buffered_clear)
  qed
qed

lemma train_step_returns:
  assumes "train_step co ar oc tr sm up = (Inr r, tr')"
  obtains loss ss lo f g tr2 where
    "buffered tr2 = buffered tr"
    "if up then update_parameters co ar oc (buffer_append ss lo f g tr2) = (Inr r, tr')
     else r = None \<and> tr' = buffer_append ss lo f g tr2"
proof -
  obtain rf tr1 where fw: "forward oc (emit WpsStart tr) sm False = (rf, tr1)"
    by (cases "forward oc (emit WpsStart tr) sm False")
  have b1: "buffered tr1 = buffered tr"
    using forward_buffered [of oc "emit WpsStart tr" sm False] fw by (simp add: buffered_emit)
  from assms fw obtain loss ss lo f where rf: "rf = Inr (loss, ss, lo, f)"
    by (cases rf) (auto simp: train_step_def)
  obtain rb tr2 where bw: "backward oc tr1 loss = (rb, tr2)"
    by (cases "backward oc tr1 loss")
  have b2: "buffered tr2 = buffered tr"
    using backward_buffered [of oc tr1 loss] bw b1 by simp
  from assms fw rf bw obtain g where rb: "rb = Inr g"
    by (cases rb) (auto simp: train_step_def)
  from assms fw rf bw rb have
    "if up then update_parameters co ar oc (buffer_append ss lo f g tr2) = (Inr r, tr')
     else r = None \<and> tr' = buffer_append ss lo f g tr2"
    by (auto simp: train_step_def Let_def)
  with b2 show ?thesis by (rule that)
qed

lemma train_step_passes:
  assumes "forward oc (emit WpsStart tr) sm False = (Inr (loss, ss, lo, f), tr1)"
    and "backward oc tr1 loss = (Inr g, tr2)"
  shows "train_step co ar oc tr sm up =
           (if up then update_parameters co ar oc (buffer_append ss lo f g tr2)
            else (Inr None, buffer_append ss lo f g tr2))"
    and "buffered tr2 = buffered tr"
proof -
  from assms show "train_step co ar oc tr sm up =
           (if up then update_parameters co ar oc (buffer_append ss lo f g tr2)
            else (Inr None, buffer_append ss lo f g tr2))"
    by (simp add: train_step_def Let_def)
  have "buffered tr1 = buffered tr"
    using forward_buffered [of oc "emit WpsStart tr" sm False] assms(1) by (simp add: buffered_emit)
  then show "buffered tr2 = buffered tr"
    using backward_buffered [of oc tr1 loss] assms(2) by simp
qed

text \<open>
  The all-failed test after one more micro-batch is buffered.
\<close>

lemma all_failed_append:
  assumes "window_all_oom (buffered tr)" and "0 < f + g"
  shows "all_updates_failed (buffered (buffer_append ss lo f g tr))"
proof -
  let ?z = "zip (ooms_fwd (buffered tr)) (ooms_bwd (buffered tr))"
  from assms(1) have len: "length (ooms_fwd (buffered tr)) = length (logging_outputs (buffered tr))"
    "length (ooms_bwd (buffered tr)) = length (logging_outputs (buffered tr))"
    and all: "list_all (\<lambda>(f, g). f + g > 0) ?z"
    by (simp_all add: window_all_oom_def aligned_def)
  have "filter (\<lambda>oom. oom > 0) (map (\<lambda>(f, b). f + b) (?z @ [(f, g)])) = map (\<lambda>(f, b). f + b) (?z @ [(f, g)])"
    using all assms(2) by (auto simp: list_all_iff filter_id_conv)
  then show ?thesis using len
    by (simp add: all_updates_failed_def buffer_append_def)
qed

lemma train_step_all_oom:
  assumes "window_all_oom (buffered tr)" and "oom_call oc"
  shows "train_step co ar oc tr (Some sm) True
           = (Inr None, tr\<lparr>buffered := empty_stats,
                trace := trace tr @ [WpsStart, ModelTrain, CriterionCall,
                          LogWarn ''Ran out of memory during forward, skipping batch'']\<rparr>)
         \<or> train_step co ar oc tr (Some sm) True
           = (Inr None, tr\<lparr>buffered := empty_stats,
                trace := trace tr @ [WpsStart, ModelTrain, CriterionCall, LossBackward,
                            LogWarn ''Ran out of memory during backward, skipping batch'',
                            ModelZeroGrad]\<rparr>)"
proof (cases "criterion_res oc")
  case (Inl e)
  with assms(2) have oom: "is_oom e" by (simp add: oom_call_def)
  let ?tr2 = "tr\<lparr>trace := trace tr @ [WpsStart, ModelTrain, CriterionCall,
                 LogWarn ''Ran out of memory during forward, skipping batch'']\<rparr>"
  have w: "window_all_oom (buffered ?tr2)" using assms(1) by simp
  have "all_updates_failed (buffered (buffer_append 0 (base_logging_output (Some sm)) 1 0 ?tr2))"
    by (rule all_failed_append [OF w]) simp
  with Inl oom show ?thesis
    by (simp add: train_step_def forward_train backward_none emit_def Let_def
        update_parameters_def clear_buffered_stats_def buffer_append_def)
next
  case (Inr x)
  obtain l ss lo where x: "x = (l, ss, lo)" by (cases x)
  from Inr assms(2) obtain e where e: "backward_res oc = Some e" "is_oom e"
    by (auto simp: oom_call_def split: option.splits)
  let ?tr2 = "tr\<lparr>trace := trace tr @ [WpsStart, ModelTrain, CriterionCall, LossBackward,
                  LogWarn ''Ran out of memory during backward, skipping batch'', ModelZeroGrad]\<rparr>"
  have w: "window_all_oom (buffered ?tr2)" using assms(1) by simp
  have "all_updates_failed (buffered (buffer_append ss (dict_update (base_logging_output (Some sm)) lo) 0 1 ?tr2))"
    by (rule all_failed_append [OF w]) simp
  with Inr x e show ?thesis
    by (simp add: train_step_def forward_train backward_some emit_def Let_def
        update_parameters_def clear_buffered_stats_def buffer_append_def)
qed

text \<open>
  The update branch when the \<open>try\<close> block raises: an \<open>OverflowError\<close> is handled,
  any other exception leaves the method with the buffer as it is.
\<close>

lemma update_parameters_overflow:
  assumes "\<not> all_updates_failed (buffered tr)" and "update_overflows oc"
  shows "update_parameters co ar oc tr =
           (Inr (Some (aggregate_logging_outputs co (logging_outputs (buffered tr)))),
            tr\<lparr>buffered := empty_stats,
               trace := trace tr
                 @ ScaleClipGrad (grad_denom co (sample_sizes (buffered tr)))
                   # (case scale_clip_res oc of Inl e \<Rightarrow> [] | Inr gn \<Rightarrow> [OptimizerStep])
                 @ [OptimizerZeroGrad,
                    LogWarn ''Overflow detected during parameters update, {str(e)}'']\<rparr>)"
proof (cases "scale_clip_res oc")
  case (Inl e)
  with assms(2) obtain msg where "e = OverflowError msg"
    by (cases e) (simp_all add: update_overflows_def is_overflow_def)
  with Inl assms(1) show ?thesis
    by (simp add: update_parameters_def try_update_def emit_def Let_def clear_buffered_stats_def)
next
  case (Inr gn)
  with assms(2) obtain e where e: "optimizer_step_res oc = Some e" "is_overflow e"
    by (auto simp: update_overflows_def split: option.splits)
  then obtain msg where "e = OverflowError msg"
    by (cases e) (simp_all add: is_overflow_def)
  with Inr e assms(1) show ?thesis
    by (simp add: update_parameters_def try_update_def emit_def Let_def clear_buffered_stats_def)
qed


text \<open>
  The part of the loop body after an update: the step counter and the scheduler update
  come first, then the reads of the logging output and the validation test, which can
  raise.
\<close>

lemma after_update_step:
  "step (fst (snd (after_update co ar oc lo st tr))) = step st + 1"
  by (simp add: after_update_def Let_def increase_num_steps_def add_valid_score_def
      split: option.splits)

lemma after_update_result:
  "fst (after_update co ar oc lo st tr) =
     (if map_of lo ''per_word_loss'' = None then Inl (KeyError ''per_word_loss'')
      else if map_of lo ''loss'' = None then Inl (KeyError ''loss'')
      else if eval_steps ar = 0 then Inl ZeroDivisionError
      else Inr ())"
  by (auto simp: after_update_def Let_def split: option.splits)

lemma after_update_trace:
  "\<exists>evs. trace (snd (snd (after_update co ar oc lo st tr)))
           = trace tr @ LrStepUpdate (step st + 1) # evs"
  by (auto simp: after_update_def Let_def emit_def increase_num_steps_def split: option.splits)

lemma after_update_saves:
  "fst (after_update co ar oc lo st tr) = Inr () \<Longrightarrow>
     last (trace (snd (snd (after_update co ar oc lo st tr)))) = TrySave"
  by (auto simp: after_update_def Let_def emit_def split: option.splits if_splits)

text \<open>
  The buffering call in closed form, and the two branches of the loop body.
\<close>

lemma train_step_buffering:
  "train_step co ar oc tr (Some sm) False =
     (case criterion_res oc of
        Inl e \<Rightarrow>
          if is_oom e
          then (Inr None,
                buffer_append 0 (base_logging_output (Some sm)) 1 0
                  (tr\<lparr>trace := trace tr @ [WpsStart, ModelTrain, CriterionCall,
                        LogWarn ''Ran out of memory during forward, skipping batch'']\<rparr>))
          else (Inl e, tr\<lparr>trace := trace tr @ [WpsStart, ModelTrain, CriterionCall]\<rparr>)
      | Inr (l, ss, lo) \<Rightarrow>
          (case backward_res oc of
             None \<Rightarrow>
               (Inr None,
                buffer_append ss (dict_update (base_logging_output (Some sm)) lo) 0 0
                  (tr\<lparr>trace := trace tr @ [WpsStart, ModelTrain, CriterionCall, LossBackward]\<rparr>))
           | Some e \<Rightarrow>
               if is_oom e
               then (Inr None,
                     buffer_append ss (dict_update (base_logging_output (Some sm)) lo) 0 1
                       (tr\<lparr>trace := trace tr @ [WpsStart, ModelTrain, CriterionCall, LossBackward,
                             LogWarn ''Ran out of memory during backward, skipping batch'',
                             ModelZeroGrad]\<rparr>))
               else (Inl e, tr\<lparr>trace := trace tr @ [WpsStart, ModelTrain, CriterionCall,
                                    LossBackward]\<rparr>)))"
  by (simp add: train_step_def forward_train backward_some backward_none emit_def Let_def
      split: sum.splits option.splits prod.splits)

lemma train_step_buffering_trace:
  assumes "train_step co ar oc tr (Some sm) False = (r, tr')"
  shows "\<exists>evs. trace tr' = trace tr @ evs
           \<and> set evs \<subseteq> {WpsStart, ModelTrain, CriterionCall, LossBackward, ModelZeroGrad}
                        \<union> range LogWarn"
proof (cases "criterion_res oc")
  case (Inl e)
  show ?thesis
  proof (cases "is_oom e")
    case True
    with Inl assms have "trace tr' = trace tr @ [WpsStart, ModelTrain, CriterionCall,
                        LogWarn ''Ran out of memory during forward, skipping batch'']"
      by (auto simp: train_step_buffering buffer_append_def)
    then show ?thesis by auto
  next
    case False
    with Inl assms have "trace tr' = trace tr @ [WpsStart, ModelTrain, CriterionCall]"
      by (auto simp: train_step_buffering)
    then show ?thesis by auto
  qed
next
  case (Inr x)
  obtain l ss lo where x: "x = (l, ss, lo)" by (cases x)
  show ?thesis
  proof (cases "backward_res oc")
    case None
    with Inr x assms have "trace tr' = trace tr @ [WpsStart, ModelTrain, CriterionCall, LossBackward]"
      by (auto simp: train_step_buffering buffer_append_def)
    then show ?thesis by auto
  next
    case (Some e)
    show ?thesis
    proof (cases "is_oom e")
      case True
      with Some Inr x assms have "trace tr' = trace tr @ [WpsStart, ModelTrain, CriterionCall, LossBackward,
                             LogWarn ''Ran out of memory during backward, skipping batch'',
                             ModelZeroGrad]"
        by (auto simp: train_step_buffering buffer_append_def)
      then show ?thesis by auto
    next
      case False
      with Some Inr x assms have "trace tr' = trace tr @ [WpsStart, ModelTrain, CriterionCall, LossBackward]"
        by (auto simp: train_step_buffering)
      then show ?thesis by auto
    qed
  qed
qed

lemma main_step_buffers:
  assumes "accumulate ar \<noteq> 0" and "0 < (step st + 1) mod accumulate ar"
  shows "main_step co ar (b, oc) st tr =
           (case train_step co ar oc (tr\<lparr>trace := trace tr @ [ModelTrain, Reseed (seed ar + step st)]\<rparr>)
                   (Some \<lparr>ntokens = n_trg_tok b, nsentences = trg_rows b\<rparr>) False of
              (Inl e, tr1) \<Rightarrow> (Inl e, st, tr1)
            | (Inr r, tr1) \<Rightarrow> (Inr (), st, tr1))"
  using assms by (simp add: main_step_def emit_def Let_def)

lemma main_step_updates:
  assumes "accumulate ar \<noteq> 0" and "\<not> 0 < (step st + 1) mod accumulate ar"
  shows "main_step co ar (b, oc) st tr =
           (case train_step co ar oc (tr\<lparr>trace := trace tr @ [ModelTrain, Reseed (seed ar + step st)]\<rparr>)
                   (Some \<lparr>ntokens = n_trg_tok b, nsentences = trg_rows b\<rparr>) True of
              (Inl e, tr1) \<Rightarrow> (Inl e, st, tr1)
            | (Inr log_output, tr1) \<Rightarrow>
                if falsy log_output then (Inr (), st, tr1)
                else after_update co ar oc (the log_output) st tr1)"
  using assms by (simp add: main_step_def emit_def Let_def)

lemma main_step_buffering_frame:
  assumes "accumulate ar \<noteq> 0" and "0 < (step st + 1) mod accumulate ar"
    and "main_step co ar bo st tr = (r, st', tr')"
  shows "st' = st
         \<and> (\<exists>evs. trace tr' = trace tr @ evs
               \<and> set evs \<subseteq> {WpsStart, ModelTrain, CriterionCall, LossBackward, ModelZeroGrad}
                            \<union> range LogWarn \<union> range Reseed)
         \<and> (r = Inr () \<longrightarrow>
               length (logging_outputs (buffered tr')) = Suc (length (logging_outputs (buffered tr))))"
proof -
  obtain b oc where bo: "bo = (b, oc)" by (cases bo)
  let ?tr0 = "tr\<lparr>trace := trace tr @ [ModelTrain, Reseed (seed ar + step st)]\<rparr>"
  let ?sm = "\<lparr>ntokens = n_trg_tok b, nsentences = trg_rows b\<rparr>"
  obtain r1 tr1 where ts: "train_step co ar oc ?tr0 (Some ?sm) False = (r1, tr1)"
    by (cases "train_step co ar oc ?tr0 (Some ?sm) False")
  from assms bo ts have res: "st' = st" "tr' = tr1" "(r = Inr ()) = (\<exists>x. r1 = Inr x)"
    by (auto simp: main_step_buffers split: sum.splits)
  from train_step_buffering_trace [OF ts] obtain evs where
    evs: "trace tr1 = trace ?tr0 @ evs"
      "set evs \<subseteq> {WpsStart, ModelTrain, CriterionCall, LossBackward, ModelZeroGrad} \<union> range LogWarn"
    by blast
  have tr_ok: "\<exists>evs. trace tr' = trace tr @ evs
               \<and> set evs \<subseteq> {WpsStart, ModelTrain, CriterionCall, LossBackward, ModelZeroGrad}
                            \<union> range LogWarn \<union> range Reseed"
  proof (intro exI conjI)
    show "trace tr' = trace tr @ ([ModelTrain, Reseed (seed ar + step st)] @ evs)"
      using evs(1) res(2) by simp
    show "set ([ModelTrain, Reseed (seed ar + step st)] @ evs)
            \<subseteq> {WpsStart, ModelTrain, CriterionCall, LossBackward, ModelZeroGrad}
               \<union> range LogWarn \<union> range Reseed"
      using evs(2) by auto
  qed
  have "length (logging_outputs (buffered tr')) = Suc (length (logging_outputs (buffered tr)))"
    if "r = Inr ()"
  proof -
    from that res obtain x where "train_step co ar oc ?tr0 (Some ?sm) False = (Inr x, tr')"
      using ts by auto
    then show ?thesis
      by (rule train_step_returns) (simp add: buffer_append_def)
  qed
  with res(1) tr_ok show ?thesis by blast
qed

lemma main_step_buffering_lengths:
  assumes "accumulate ar \<noteq> 0" and "0 < (step st + 1) mod accumulate ar"
    and "main_step co ar bo st tr = (Inr (), st', tr')"
  shows "length (sample_sizes (buffered tr')) = Suc (length (sample_sizes (buffered tr)))
         \<and> length (logging_outputs (buffered tr')) = Suc (length (logging_outputs (buffered tr)))
         \<and> length (ooms_fwd (buffered tr')) = Suc (length (ooms_fwd (buffered tr)))
         \<and> length (ooms_bwd (buffered tr')) = Suc (length (ooms_bwd (buffered tr)))"
proof -
  obtain b oc where bo: "bo = (b, oc)" by (cases bo)
  let ?tr0 = "tr\<lparr>trace := trace tr @ [ModelTrain, Reseed (seed ar + step st)]\<rparr>"
  let ?sm = "\<lparr>ntokens = n_trg_tok b, nsentences = trg_rows b\<rparr>"
  obtain r1 tr1 where ts: "train_step co ar oc ?tr0 (Some ?sm) False = (r1, tr1)"
    by (cases "train_step co ar oc ?tr0 (Some ?sm) False")
  from assms bo ts obtain x where "train_step co ar oc ?tr0 (Some ?sm) False = (Inr x, tr')"
    by (auto simp: main_step_buffers split: sum.splits)
  then show ?thesis
    by (rule train_step_returns) (simp add: buffer_append_def)
qed

text \<open>
  An exception of the criterion or of the backward pass that is not an out-of-memory
  \<open>RuntimeError\<close> leaves \<open>train_step\<close> and the loop body.
\<close>

lemma train_step_fatal:
  assumes "(criterion_res oc = Inl e \<or> (\<exists>x. criterion_res oc = Inr x) \<and> backward_res oc = Some e)"
    and "\<not> is_oom e"
  shows "\<exists>evs. train_step co ar oc tr (Some sm) up = (Inl e, tr\<lparr>trace := trace tr @ evs\<rparr>)
           \<and> (evs = [WpsStart, ModelTrain, CriterionCall]
              \<or> evs = [WpsStart, ModelTrain, CriterionCall, LossBackward])"
proof (cases "criterion_res oc")
  case (Inl e')
  with assms have "train_step co ar oc tr (Some sm) up
      = (Inl e, tr\<lparr>trace := trace tr @ [WpsStart, ModelTrain, CriterionCall]\<rparr>)"
    by (simp add: train_step_def forward_train emit_def)
  then show ?thesis by blast
next
  case (Inr x)
  obtain l ss lo where x: "x = (l, ss, lo)" by (cases x)
  with Inr assms have "train_step co ar oc tr (Some sm) up
      = (Inl e, tr\<lparr>trace := trace tr @ [WpsStart, ModelTrain, CriterionCall, LossBackward]\<rparr>)"
    by (simp add: train_step_def forward_train backward_some emit_def)
  then show ?thesis by blast
qed

lemma main_step_fatal:
  assumes "(criterion_res oc = Inl e \<or> (\<exists>x. criterion_res oc = Inr x) \<and> backward_res oc = Some e)"
    and "\<not> is_oom e" and "accumulate ar \<noteq> 0"
  shows "\<exists>evs. main_step co ar (b, oc) st tr = (Inl e, st, tr\<lparr>trace := trace tr @ evs\<rparr>)
           \<and> (evs = [ModelTrain, Reseed (seed ar + step st), WpsStart, ModelTrain, CriterionCall]
              \<or> evs = [ModelTrain, Reseed (seed ar + step st), WpsStart, ModelTrain, CriterionCall,
                        LossBackward])"
proof -
  let ?tr0 = "tr\<lparr>trace := trace tr @ [ModelTrain, Reseed (seed ar + step st)]\<rparr>"
  let ?sm = "\<lparr>ntokens = n_trg_tok b, nsentences = trg_rows b\<rparr>"
  show ?thesis
  proof (cases "0 < (step st + 1) mod accumulate ar")
    case True
    from train_step_fatal [OF assms(1,2), of co ar ?tr0 ?sm False] True assms(3)
    show ?thesis by (auto simp: main_step_buffers)
  next
    case False
    from train_step_fatal [OF assms(1,2), of co ar ?tr0 ?sm True] False assms(3)
    show ?thesis by (auto simp: main_step_updates)
  qed
qed



text \<open>
  The loop ends as \<open>Finished\<close> only with the predicate false, and as \<open>Unfinished\<close> only
  with the predicate true.
\<close>

lemma main_loop_finished:
  "main_loop co ar eps st tr = (Finished, st', tr') \<Longrightarrow> \<not> predicate co ar st' tr'"
proof (induction eps arbitrary: st tr)
  case Nil
  then show ?case by (auto split: if_splits)
next
  case (Cons ep eps)
  show ?case
  proof (cases "predicate co ar st tr")
    case False
    with Cons.prems show ?thesis by simp
  next
    case True
    with Cons.prems obtain r st1 tr1 where
      r: "run_epoch co ar ep st (before_epoch_callback st tr) = (r, st1, tr1)"
      by (cases "run_epoch co ar ep st (before_epoch_callback st tr)") auto
    with True Cons.prems obtain u where "r = Inr u" by (cases r) auto
    with r True Cons.prems have
      "main_loop co ar eps (fst (after_epoch_callback st1 tr1)) (snd (after_epoch_callback st1 tr1))
         = (Finished, st', tr')"
      by (simp add: case_prod_beta)
    then show ?thesis by (rule Cons.IH)
  qed
qed

lemma main_loop_unfinished:
  "main_loop co ar eps st tr = (Unfinished, st', tr') \<Longrightarrow> predicate co ar st' tr'"
proof (induction eps arbitrary: st tr)
  case Nil
  then show ?case by (auto split: if_splits)
next
  case (Cons ep eps)
  show ?case
  proof (cases "predicate co ar st tr")
    case False
    with Cons.prems show ?thesis by simp
  next
    case True
    with Cons.prems obtain r st1 tr1 where
      r: "run_epoch co ar ep st (before_epoch_callback st tr) = (r, st1, tr1)"
      by (cases "run_epoch co ar ep st (before_epoch_callback st tr)") auto
    with True Cons.prems obtain u where "r = Inr u" by (cases r) auto
    with r True Cons.prems have
      "main_loop co ar eps (fst (after_epoch_callback st1 tr1)) (snd (after_epoch_callback st1 tr1))
         = (Unfinished, st', tr')"
      by (simp add: case_prod_beta)
    then show ?thesis by (rule Cons.IH)
  qed
qed

lemma predicate_iff:
  "predicate co ar st tr \<longleftrightarrow>
     (min_lr ar = None \<or> (\<exists>m. min_lr ar = Some m \<and> get_lr co (trace tr) > m))
     \<and> (max_epoch ar = None \<or> max_epoch ar = Some 0 \<or> (\<exists>m. max_epoch ar = Some m \<and> epoch st < m))
     \<and> (max_step ar = None \<or> max_step ar = Some 0 \<or> (\<exists>m. max_step ar = Some m \<and> step st < m))"
  by (auto simp: predicate_def below_def or_inf_def split: option.splits if_splits)

text \<open>
  \<open>setattr\<close> and the item loop of \<open>override\<close> on the heap.
\<close>

lemma setattr_length: "length (setattr h a k v) = length h"
  by (simp add: setattr_def)

lemma setattr_other: "i \<noteq> a \<Longrightarrow> setattr h a k v ! i = h ! i"
  by (simp add: setattr_def)

lemma setattr_same:
  "a < length h \<Longrightarrow> map_of (setattr h a k v ! a) k' = (if k' = k then Some v else map_of (h ! a) k')"
  by (simp add: setattr_def update_conv')

lemma override_items_frame:
  "override_items f a kvs h = (r, h') \<Longrightarrow>
     length h' = length h \<and> (\<forall>i. i \<noteq> a \<longrightarrow> h' ! i = h ! i)"
proof (induction kvs arbitrary: h)
  case Nil
  then show ?case by simp
next
  case (Cons kv kvs)
  obtain k v where kv: "kv = (k, v)" by (cases kv)
  have step: "override_items f a kvs (setattr h a k v) = (r, h') \<Longrightarrow> ?case"
    using Cons.IH [of "setattr h a k v"] by (simp add: setattr_length setattr_other)
  show ?case
  proof (cases "v = PNone")
    case True
    with Cons.prems kv show ?thesis using Cons.IH [of h] by simp
  next
    case False
    note nn = this
    show ?thesis
    proof (cases f)
      case False
      with nn Cons.prems kv show ?thesis using step by simp
    next
      case True
      show ?thesis
      proof (cases "map_of (h ! a) k")
        case None
        with True nn Cons.prems kv show ?thesis by simp
      next
        case (Some cur)
        show ?thesis
        proof (cases "cur = PNone")
          case True
          with Some \<open>f\<close> nn Cons.prems kv show ?thesis using step by simp
        next
          case False
          with Some \<open>f\<close> nn Cons.prems kv show ?thesis using Cons.IH [of h] by simp
        qed
      qed
    qed
  qed
qed

lemma override_items_keeps:
  "a < length h \<Longrightarrow> override_items f a kvs h = (r, h') \<Longrightarrow>
     (\<And>v. (k, v) \<in> set kvs \<Longrightarrow> v = PNone) \<Longrightarrow>
     map_of (h' ! a) k = map_of (h ! a) k"
proof (induction kvs arbitrary: h)
  case Nil
  then show ?case by simp
next
  case (Cons kv kvs)
  obtain k' v where kv: "kv = (k', v)" by (cases kv)
  have rest: "\<And>v. (k, v) \<in> set kvs \<Longrightarrow> v = PNone"
    using Cons.prems(3) by simp
  have same: "override_items f a kvs h = (r, h') \<Longrightarrow> ?case"
    using Cons.IH [of h] Cons.prems(1) rest by simp
  have step: "v \<noteq> PNone \<Longrightarrow> override_items f a kvs (setattr h a k' v) = (r, h') \<Longrightarrow> ?case"
  proof -
    assume nn: "v \<noteq> PNone" and run: "override_items f a kvs (setattr h a k' v) = (r, h')"
    from nn kv Cons.prems(3) [of v] have "k \<noteq> k'" by auto
    moreover have "map_of (h' ! a) k = map_of (setattr h a k' v ! a) k"
      using Cons.IH [of "setattr h a k' v"] Cons.prems(1) run rest
      by (simp add: setattr_length)
    ultimately show ?case using Cons.prems(1) by (simp add: setattr_same)
  qed
  show ?case
  proof (cases "v = PNone")
    case True
    with Cons.prems kv show ?thesis using same by simp
  next
    case False
    note nn = this
    show ?thesis
    proof (cases f)
      case False
      with nn Cons.prems kv show ?thesis using step by simp
    next
      case True
      show ?thesis
      proof (cases "map_of (h ! a) k'")
        case None
        with True nn Cons.prems kv show ?thesis by simp
      next
        case (Some cur)
        show ?thesis
        proof (cases "cur = PNone")
          case True
          with Some \<open>f\<close> nn Cons.prems kv show ?thesis using step by simp
        next
          case False
          with Some \<open>f\<close> nn Cons.prems kv show ?thesis using same by simp
        qed
      qed
    qed
  qed
qed

lemma none_only:
  "distinct (map fst kvs) \<Longrightarrow> map_of kvs k = Some PNone \<Longrightarrow> (k, v) \<in> set kvs \<Longrightarrow> v = PNone"
  by (drule map_of_SomeD) (rule eq_key_imp_eq_value, assumption+)

text \<open>
  The definitions unfolded when a run is evaluated on concrete inputs.
\<close>

lemmas ex_defs = sum_collaborators_def args2_def good_def trainer0_def state0_def batch0_def

lemmas run_defs = main_step_def train_step_def forward_def backward_def update_parameters_def
  try_update_def buffer_append_def all_updates_failed_def clear_buffered_stats_def emit_def
  empty_stats_def base_logging_output_def dict_update_def dict_get_def falsy_def
  after_update_def increase_num_steps_def add_valid_score_def Let_def

lemmas loop_defs = predicate_def below_def or_inf_def before_epoch_callback_def
  after_epoch_callback_def increase_epoch_def

section \<open>Gradient accumulation in the control loop\<close>

text \<open>
  C1. The loop body buffers exactly when \<open>(state.step + 1) % args.accumulate > 0\<close>, and
  \<open>state.step\<close> advances only after a parameter update. So once a call buffers, every
  later call of the epoch buffers as well: whatever the batches and whatever the
  collaborators do, the progress state is unchanged at the end of the epoch, the calls
  made are those of the forward and backward pass only (no rescale-and-clip, no optimizer
  step, no meter update), and an epoch that ends without an exception has added one buffer
  entry per batch. For \<open>accumulate = 2\<close> and a run started at step 0 this means that no
  parameter update ever happens, where the claim has one update on every second call.
\<close>

theorem buffering_never_updates:
  assumes "accumulate ar \<noteq> 0" and "0 < (step st + 1) mod accumulate ar"
    and "run_epoch co ar bos st tr = (r, st', tr')"
  shows "st' = st
         \<and> (\<exists>evs. trace tr' = trace tr @ evs
               \<and> set evs \<subseteq> {WpsStart, ModelTrain, CriterionCall, LossBackward, ModelZeroGrad}
                            \<union> range LogWarn \<union> range Reseed)
         \<and> (r = Inr () \<longrightarrow>
               length (logging_outputs (buffered tr'))
                 = length (logging_outputs (buffered tr)) + length bos)"
  using assms(3)
proof (induction bos arbitrary: tr)
  case Nil
  then show ?case by simp
next
  case (Cons bo bos)
  obtain r1 st1 tr1 where ms: "main_step co ar bo st tr = (r1, st1, tr1)"
    by (cases "main_step co ar bo st tr")
  note fr = main_step_buffering_frame [OF assms(1,2) ms]
  then have st1: "st1 = st" by simp
  from fr obtain evs1 where evs1: "trace tr1 = trace tr @ evs1"
    "set evs1 \<subseteq> {WpsStart, ModelTrain, CriterionCall, LossBackward, ModelZeroGrad}
                 \<union> range LogWarn \<union> range Reseed"
    by blast
  show ?case
  proof (cases r1)
    case (Inl e)
    with ms Cons.prems st1 have "st' = st" "tr' = tr1" "r = Inl e" by simp_all
    with evs1 show ?thesis by blast
  next
    case (Inr u)
    with ms Cons.prems st1 have run: "run_epoch co ar bos st tr1 = (r, st', tr')" by simp
    from Cons.IH [OF run] obtain evs2 where ih: "st' = st" "trace tr' = trace tr1 @ evs2"
      "set evs2 \<subseteq> {WpsStart, ModelTrain, CriterionCall, LossBackward, ModelZeroGrad}
                   \<union> range LogWarn \<union> range Reseed"
      "r = Inr () \<longrightarrow> length (logging_outputs (buffered tr'))
                 = length (logging_outputs (buffered tr1)) + length bos"
      by blast
    have "trace tr' = trace tr @ (evs1 @ evs2)" using evs1(1) ih(2) by simp
    moreover have "set (evs1 @ evs2) \<subseteq> {WpsStart, ModelTrain, CriterionCall, LossBackward, ModelZeroGrad}
                   \<union> range LogWarn \<union> range Reseed"
      using evs1(2) ih(3) by simp
    moreover have "r = Inr () \<longrightarrow> length (logging_outputs (buffered tr'))
                 = length (logging_outputs (buffered tr)) + length (bo # bos)"
      using ih(4) fr Inr by simp
    ultimately show ?thesis using ih(1) by blast
  qed
qed

text \<open>
  With \<open>accumulate = 2\<close> from step 0, three good batches are all buffered.
\<close>

theorem buffering_never_updates_witness:
  "accumulate args2 \<noteq> 0 \<and> 0 < (step state0 + 1) mod accumulate args2
   \<and> run_epoch sum_collaborators args2 [(batch0, good), (batch0, good), (batch0, good)] state0 trainer0
     = (Inr (), state0,
        \<lparr>buffered =
           \<lparr>sample_sizes = [10, 10, 10],
            logging_outputs =
              [[(''ntokens'', 7), (''nsentences'', 2), (''loss'', 2)],
               [(''ntokens'', 7), (''nsentences'', 2), (''loss'', 2)],
               [(''ntokens'', 7), (''nsentences'', 2), (''loss'', 2)]],
            ooms_fwd = [0, 0, 0], ooms_bwd = [0, 0, 0]\<rparr>,
         trace =
           [ModelTrain, Reseed 1, WpsStart, ModelTrain, CriterionCall, LossBackward,
            ModelTrain, Reseed 1, WpsStart, ModelTrain, CriterionCall, LossBackward,
            ModelTrain, Reseed 1, WpsStart, ModelTrain, CriterionCall, LossBackward]\<rparr>)"
  using buffering_never_updates [of args2 state0 sum_collaborators
      "[(batch0, good), (batch0, good), (batch0, good)]" trainer0 "Inr ()" state0
      "\<lparr>buffered =
           \<lparr>sample_sizes = [10, 10, 10],
            logging_outputs =
              [[(''ntokens'', 7), (''nsentences'', 2), (''loss'', 2)],
               [(''ntokens'', 7), (''nsentences'', 2), (''loss'', 2)],
               [(''ntokens'', 7), (''nsentences'', 2), (''loss'', 2)]],
            ooms_fwd = [0, 0, 0], ooms_bwd = [0, 0, 0]\<rparr>,
         trace =
           [ModelTrain, Reseed 1, WpsStart, ModelTrain, CriterionCall, LossBackward,
            ModelTrain, Reseed 1, WpsStart, ModelTrain, CriterionCall, LossBackward,
            ModelTrain, Reseed 1, WpsStart, ModelTrain, CriterionCall, LossBackward]\<rparr>"]
  by (simp add: ex_defs run_defs)

section \<open>A window in which every micro-batch ran out of memory\<close>

text \<open>
  C2. \<open>train_step\<close> with \<open>update_params\<close> true, when every buffered micro-batch and the
  current one have an OOM flag set (the test of the code adds the forward and the backward
  flag of each micro-batch, so a flag in either pass counts): the call returns \<open>None\<close>
  with the buffer emptied, and the only calls it makes are the start of the wps stopwatch
  and those of the forward and backward pass with their OOM handlers; there is no
  rescale-and-clip, no optimizer step and no meter update. The loop body then returns
  with the progress state, and so the global step, unchanged.
\<close>

theorem all_oom_window_dropped:
  assumes "window_all_oom (buffered tr)" and "oom_call oc"
  shows "(\<exists>evs. train_step co ar oc tr (Some sm) True
                  = (Inr None, tr\<lparr>buffered := empty_stats, trace := trace tr @ evs\<rparr>)
              \<and> set evs \<subseteq> {WpsStart, ModelTrain, CriterionCall, LossBackward, ModelZeroGrad}
                           \<union> range LogWarn)
         \<and> (accumulate ar \<noteq> 0 \<and> \<not> 0 < (step st + 1) mod accumulate ar \<longrightarrow>
              (\<exists>evs. main_step co ar (b, oc) st tr
                       = (Inr (), st, tr\<lparr>buffered := empty_stats, trace := trace tr @ evs\<rparr>)
                   \<and> set evs \<subseteq> {WpsStart, ModelTrain, CriterionCall, LossBackward, ModelZeroGrad}
                                \<union> range LogWarn \<union> range Reseed))"
proof (intro conjI impI)
  let ?F = "[WpsStart, ModelTrain, CriterionCall,
             LogWarn ''Ran out of memory during forward, skipping batch'']"
  let ?B = "[WpsStart, ModelTrain, CriterionCall, LossBackward,
             LogWarn ''Ran out of memory during backward, skipping batch'', ModelZeroGrad]"
  from train_step_all_oom [OF assms, of co ar sm]
  show "\<exists>evs. train_step co ar oc tr (Some sm) True
                  = (Inr None, tr\<lparr>buffered := empty_stats, trace := trace tr @ evs\<rparr>)
              \<and> set evs \<subseteq> {WpsStart, ModelTrain, CriterionCall, LossBackward, ModelZeroGrad}
                           \<union> range LogWarn"
  proof
    assume "train_step co ar oc tr (Some sm) True
              = (Inr None, tr\<lparr>buffered := empty_stats, trace := trace tr @ ?F\<rparr>)"
    then show ?thesis by (intro exI [of _ ?F]) simp
  next
    assume "train_step co ar oc tr (Some sm) True
              = (Inr None, tr\<lparr>buffered := empty_stats, trace := trace tr @ ?B\<rparr>)"
    then show ?thesis by (intro exI [of _ ?B]) simp
  qed
  assume upd: "accumulate ar \<noteq> 0 \<and> \<not> 0 < (step st + 1) mod accumulate ar"
  let ?P = "[ModelTrain, Reseed (seed ar + step st)]"
  let ?tr0 = "tr\<lparr>trace := trace tr @ ?P\<rparr>"
  let ?sm = "\<lparr>ntokens = n_trg_tok b, nsentences = trg_rows b\<rparr>"
  have w: "window_all_oom (buffered ?tr0)" using assms(1) by simp
  from train_step_all_oom [OF w assms(2), of co ar ?sm]
  show "\<exists>evs. main_step co ar (b, oc) st tr
                 = (Inr (), st, tr\<lparr>buffered := empty_stats, trace := trace tr @ evs\<rparr>)
             \<and> set evs \<subseteq> {WpsStart, ModelTrain, CriterionCall, LossBackward, ModelZeroGrad}
                          \<union> range LogWarn \<union> range Reseed"
  proof
    assume "train_step co ar oc ?tr0 (Some ?sm) True
              = (Inr None, ?tr0\<lparr>buffered := empty_stats, trace := trace ?tr0 @ ?F\<rparr>)"
    with upd have "main_step co ar (b, oc) st tr
                 = (Inr (), st, tr\<lparr>buffered := empty_stats, trace := trace tr @ (?P @ ?F)\<rparr>)"
      by (simp add: main_step_updates falsy_def)
    then show ?thesis by (intro exI [of _ "?P @ ?F"]) simp
  next
    assume "train_step co ar oc ?tr0 (Some ?sm) True
              = (Inr None, ?tr0\<lparr>buffered := empty_stats, trace := trace ?tr0 @ ?B\<rparr>)"
    with upd have "main_step co ar (b, oc) st tr
                 = (Inr (), st, tr\<lparr>buffered := empty_stats, trace := trace tr @ (?P @ ?B)\<rparr>)"
      by (simp add: main_step_updates falsy_def)
    then show ?thesis by (intro exI [of _ "?P @ ?B"]) simp
  qed
qed

text \<open>
  A window of two micro-batches that both ran out of memory in the forward pass.
\<close>

theorem all_oom_window_dropped_witness:
  "window_all_oom \<lparr>sample_sizes = [0], logging_outputs = [[(''ntokens'', 7), (''nsentences'', 2)]],
                   ooms_fwd = [1], ooms_bwd = [0]\<rparr>
   \<and> oom_call (good\<lparr>criterion_res := Inl (RuntimeError ''CUDA out of memory'')\<rparr>)
   \<and> train_step sum_collaborators args2
        (good\<lparr>criterion_res := Inl (RuntimeError ''CUDA out of memory'')\<rparr>)
        \<lparr>buffered = \<lparr>sample_sizes = [0],
                      logging_outputs = [[(''ntokens'', 7), (''nsentences'', 2)]],
                      ooms_fwd = [1], ooms_bwd = [0]\<rparr>, trace = []\<rparr>
        (Some \<lparr>ntokens = 7, nsentences = 2\<rparr>) True
       = (Inr None,
          \<lparr>buffered = empty_stats,
           trace = [WpsStart, ModelTrain, CriterionCall,
                    LogWarn ''Ran out of memory during forward, skipping batch'']\<rparr>)
   \<and> main_step sum_collaborators args2
        (batch0, good\<lparr>criterion_res := Inl (RuntimeError ''CUDA out of memory'')\<rparr>)
        (state0\<lparr>step := 1\<rparr>)
        \<lparr>buffered = \<lparr>sample_sizes = [0],
                      logging_outputs = [[(''ntokens'', 7), (''nsentences'', 2)]],
                      ooms_fwd = [1], ooms_bwd = [0]\<rparr>, trace = []\<rparr>
       = (Inr (), state0\<lparr>step := 1\<rparr>,
          \<lparr>buffered = empty_stats,
           trace = [ModelTrain, Reseed 2, WpsStart, ModelTrain, CriterionCall,
                    LogWarn ''Ran out of memory during forward, skipping batch'']\<rparr>)"
  using all_oom_window_dropped
    [of "\<lparr>buffered = \<lparr>sample_sizes = [0],
                      logging_outputs = [[(''ntokens'', 7), (''nsentences'', 2)]],
                      ooms_fwd = [1], ooms_bwd = [0]\<rparr>, trace = []\<rparr>"
        "good\<lparr>criterion_res := Inl (RuntimeError ''CUDA out of memory'')\<rparr>"
        sum_collaborators args2 "\<lparr>ntokens = 7, nsentences = 2\<rparr>" "state0\<lparr>step := 1\<rparr>" batch0]
  by (simp add: ex_defs run_defs window_all_oom_def aligned_def oom_call_def)

section \<open>Overflow during the update\<close>

text \<open>
  C3, as the code has it. Let the forward and backward pass of the current micro-batch
  return (with or without an out-of-memory flag), let the window not be all-failed, and
  let an \<open>OverflowError\<close> be raised by the rescale-and-clip step or by
  \<open>optimizer.step()\<close>. Then \<open>train_step\<close> does not raise: after the calls made so far it
  zeroes the gradients and logs a warning, updates no meter, empties the buffer and
  returns the aggregated logging output. The loop body tests only whether that output is
  falsy: for an empty dict it leaves the progress state as it is, for a non-empty one it
  goes on as after a successful update. There the global step advances by one and the
  scheduler's step update is called first; the rest of the body then ends with the
  checkpoint check when the output has the keys \<open>per_word_loss\<close> and \<open>loss\<close> and
  \<open>eval_steps\<close> is not 0, and raises \<open>KeyError\<close> or \<open>ZeroDivisionError\<close> otherwise, with
  the step already advanced.
\<close>

theorem overflow_recovered_and_counted:
  assumes "forward oc (emit WpsStart tr) sm False = (Inr (loss, ss, lo, f), tr1)"
    and "backward oc tr1 loss = (Inr g, tr2)"
    and "\<not> all_updates_failed (buffered (buffer_append ss lo f g tr2))"
    and "update_overflows oc"
  shows
    "let agg = aggregate_logging_outputs co (logging_outputs (buffered tr) @ [lo]);
         tr3 = tr2\<lparr>buffered := empty_stats,
                    trace := trace tr2
                      @ ScaleClipGrad (grad_denom co (sample_sizes (buffered tr) @ [ss]))
                        # (case scale_clip_res oc of Inl e \<Rightarrow> [] | Inr gn \<Rightarrow> [OptimizerStep])
                      @ [OptimizerZeroGrad,
                         LogWarn ''Overflow detected during parameters update, {str(e)}'']\<rparr>
     in train_step co ar oc tr sm True = (Inr (Some agg), tr3)
        \<and> (accumulate ar \<noteq> 0 \<and> \<not> 0 < (step st + 1) mod accumulate ar
             \<and> tr = emit (Reseed (seed ar + step st)) (emit ModelTrain tr0)
             \<and> sm = Some \<lparr>ntokens = n_trg_tok b, nsentences = trg_rows b\<rparr> \<longrightarrow>
             main_step co ar (b, oc) st tr0
               = (if agg = [] then (Inr (), st, tr3) else after_update co ar oc agg st tr3))
        \<and> step (fst (snd (after_update co ar oc agg st tr3))) = step st + 1
        \<and> (\<exists>evs. trace (snd (snd (after_update co ar oc agg st tr3)))
                    = trace tr3 @ LrStepUpdate (step st + 1) # evs)
        \<and> fst (after_update co ar oc agg st tr3)
            = (if map_of agg ''per_word_loss'' = None then Inl (KeyError ''per_word_loss'')
               else if map_of agg ''loss'' = None then Inl (KeyError ''loss'')
               else if eval_steps ar = 0 then Inl ZeroDivisionError
               else Inr ())
        \<and> (fst (after_update co ar oc agg st tr3) = Inr () \<longrightarrow>
              last (trace (snd (snd (after_update co ar oc agg st tr3)))) = TrySave)"
proof -
  define agg where "agg = aggregate_logging_outputs co (logging_outputs (buffered tr) @ [lo])"
  define tr3 where "tr3 = tr2\<lparr>buffered := empty_stats,
                    trace := trace tr2
                      @ ScaleClipGrad (grad_denom co (sample_sizes (buffered tr) @ [ss]))
                        # (case scale_clip_res oc of Inl e \<Rightarrow> [] | Inr gn \<Rightarrow> [OptimizerStep])
                      @ [OptimizerZeroGrad,
                         LogWarn ''Overflow detected during parameters update, {str(e)}'']\<rparr>"
  note ps = train_step_passes [OF assms(1,2)]
  have ts: "train_step co ar oc tr sm True = (Inr (Some agg), tr3)"
    using ps(1) [of co ar True] ps(2) update_parameters_overflow [OF assms(3,4), of co ar]
    by (simp add: agg_def tr3_def buffer_append_def)
  have ms: "main_step co ar (b, oc) st tr0
               = (if agg = [] then (Inr (), st, tr3) else after_update co ar oc agg st tr3)"
    if "accumulate ar \<noteq> 0 \<and> \<not> 0 < (step st + 1) mod accumulate ar
             \<and> tr = emit (Reseed (seed ar + step st)) (emit ModelTrain tr0)
             \<and> sm = Some \<lparr>ntokens = n_trg_tok b, nsentences = trg_rows b\<rparr>"
  proof -
    from that have "tr0\<lparr>trace := trace tr0 @ [ModelTrain, Reseed (seed ar + step st)]\<rparr> = tr"
      by (simp add: emit_def)
    with that ts show ?thesis
      by (simp add: main_step_updates falsy_def)
  qed
  show ?thesis
    unfolding Let_def agg_def [symmetric] tr3_def [symmetric]
    using ts ms after_update_step [of co ar oc agg st tr3]
      after_update_trace [of co ar oc agg st tr3] after_update_result [of co ar oc agg st tr3]
      after_update_saves [of co ar oc agg st tr3]
    by blast
qed

text \<open>
  C3 as stated fails: with \<open>accumulate = 1\<close> and an overflow in \<open>optimizer.step()\<close>, the
  loop body moves the global step from 0 to 1 and goes on to the scheduler update, the
  scalars and the checkpoint check.
\<close>

theorem overflow_step_counted_counterexample:
  "update_overflows (good\<lparr>optimizer_step_res := Some (OverflowError ''inf'')\<rparr>)
   \<and> step state0 = 0
   \<and> main_step sum_collaborators (args2\<lparr>accumulate := 1\<rparr>)
        (batch0, good\<lparr>optimizer_step_res := Some (OverflowError ''inf'')\<rparr>) state0 trainer0
       = (Inr (), \<lparr>epoch = 0, step = 1, eval_scores = []\<rparr>,
          \<lparr>buffered = empty_stats,
           trace = [ModelTrain, Reseed 1, WpsStart, ModelTrain, CriterionCall, LossBackward,
                    ScaleClipGrad 10, OptimizerStep, OptimizerZeroGrad,
                    LogWarn ''Overflow detected during parameters update, {str(e)}'',
                    LrStepUpdate 1, LogInfo ''step'', AddScalar ''loss'' 1 1,
                    AddScalar ''lr'' 1 1, TrySave]\<rparr>)"
  by (simp add: ex_defs run_defs update_overflows_def is_overflow_def)

text \<open>
  The same call through the theorem, and an overflow in a window of two micro-batches
  whose second one ran out of memory in the forward pass.
\<close>

theorem overflow_recovered_and_counted_witness:
  "update_overflows (good\<lparr>optimizer_step_res := Some (OverflowError ''inf'')\<rparr>)
   \<and> main_step sum_collaborators (args2\<lparr>accumulate := 1\<rparr>)
        (batch0, good\<lparr>optimizer_step_res := Some (OverflowError ''inf'')\<rparr>) state0 trainer0
       = (Inr (), \<lparr>epoch = 0, step = 1, eval_scores = []\<rparr>,
          \<lparr>buffered = empty_stats,
           trace = [ModelTrain, Reseed 1, WpsStart, ModelTrain, CriterionCall, LossBackward,
                    ScaleClipGrad 10, OptimizerStep, OptimizerZeroGrad,
                    LogWarn ''Overflow detected during parameters update, {str(e)}'',
                    LrStepUpdate 1, LogInfo ''step'', AddScalar ''loss'' 1 1,
                    AddScalar ''lr'' 1 1, TrySave]\<rparr>)
   \<and> update_overflows (good\<lparr>criterion_res := Inl (RuntimeError ''CUDA out of memory''),
                              scale_clip_res := Inl (OverflowError ''inf'')\<rparr>)
   \<and> train_step sum_collaborators args2
        (good\<lparr>criterion_res := Inl (RuntimeError ''CUDA out of memory''),
              scale_clip_res := Inl (OverflowError ''inf'')\<rparr>)
        \<lparr>buffered = \<lparr>sample_sizes = [10],
                      logging_outputs = [[(''ntokens'', 7), (''nsentences'', 2), (''loss'', 2)]],
                      ooms_fwd = [0], ooms_bwd = [0]\<rparr>, trace = []\<rparr>
        (Some \<lparr>ntokens = 7, nsentences = 2\<rparr>) True
       = (Inr (Some [(''ntokens'', 14), (''per_word_loss'', 1), (''loss'', 1)]),
          \<lparr>buffered = empty_stats,
           trace = [WpsStart, ModelTrain, CriterionCall,
                    LogWarn ''Ran out of memory during forward, skipping batch'',
                    ScaleClipGrad 10, OptimizerZeroGrad,
                    LogWarn ''Overflow detected during parameters update, {str(e)}'']\<rparr>)"
  using overflow_recovered_and_counted
    [where oc = "good\<lparr>optimizer_step_res := Some (OverflowError ''inf'')\<rparr>"
       and tr = "emit (Reseed 1) (emit ModelTrain trainer0)"
       and sm = "Some \<lparr>ntokens = 7, nsentences = 2\<rparr>"
       and loss = "Some 2" and ss = 10
       and lo = "[(''ntokens'', 7), (''nsentences'', 2), (''loss'', 2)]" and f = 0
       and ?tr1.0 = "\<lparr>buffered = empty_stats,
                      trace = [ModelTrain, Reseed 1, WpsStart, ModelTrain, CriterionCall]\<rparr>"
       and g = 0
       and ?tr2.0 = "\<lparr>buffered = empty_stats,
                      trace = [ModelTrain, Reseed 1, WpsStart, ModelTrain, CriterionCall,
                               LossBackward]\<rparr>"
       and co = sum_collaborators and ar = "args2\<lparr>accumulate := 1\<rparr>"
       and st = state0 and ?tr0.0 = trainer0 and b = batch0]
    overflow_recovered_and_counted
    [where oc = "good\<lparr>criterion_res := Inl (RuntimeError ''CUDA out of memory''),
                      scale_clip_res := Inl (OverflowError ''inf'')\<rparr>"
       and tr = "\<lparr>buffered = \<lparr>sample_sizes = [10],
                      logging_outputs = [[(''ntokens'', 7), (''nsentences'', 2), (''loss'', 2)]],
                      ooms_fwd = [0], ooms_bwd = [0]\<rparr>, trace = []\<rparr>"
       and sm = "Some \<lparr>ntokens = 7, nsentences = 2\<rparr>"
       and loss = None and ss = 0
       and lo = "[(''ntokens'', 7), (''nsentences'', 2)]" and f = 1
       and ?tr1.0 = "\<lparr>buffered = \<lparr>sample_sizes = [10],
                      logging_outputs = [[(''ntokens'', 7), (''nsentences'', 2), (''loss'', 2)]],
                      ooms_fwd = [0], ooms_bwd = [0]\<rparr>,
                      trace = [WpsStart, ModelTrain, CriterionCall,
                        LogWarn ''Ran out of memory during forward, skipping batch'']\<rparr>"
       and g = 0
       and ?tr2.0 = "\<lparr>buffered = \<lparr>sample_sizes = [10],
                      logging_outputs = [[(''ntokens'', 7), (''nsentences'', 2), (''loss'', 2)]],
                      ooms_fwd = [0], ooms_bwd = [0]\<rparr>,
                      trace = [WpsStart, ModelTrain, CriterionCall,
                        LogWarn ''Ran out of memory during forward, skipping batch'']\<rparr>"
       and co = sum_collaborators and ar = args2]
  by (simp add: ex_defs run_defs update_overflows_def is_overflow_def)

section \<open>The learning-rate step at the end of an epoch\<close>

text \<open>
  C4. \<open>after_epoch_callback\<close> with a non-empty list of validation scores: the epoch
  counter advances by one and the scheduler is stepped once, with the new epoch and with
  the last validation score itself as metric. The code negates the score into
  \<open>eval_score\<close> and negates \<open>eval_score\<close> again in the call, so the value handed to the
  \<open>val_loss\<close> parameter is the score and not its negation.
\<close>

theorem after_epoch_metric:
  "eval_scores st \<noteq> [] \<Longrightarrow>
     after_epoch_callback st tr =
       (st\<lparr>epoch := epoch st + 1\<rparr>,
        tr\<lparr>trace := trace tr @ [LogInfo ''Finished epoch'',
                                  LrStep (epoch st + 1) (Some (last (eval_scores st)))]\<rparr>)"
  by (simp add: after_epoch_callback_def increase_epoch_def emit_def Let_def)

text \<open>
  With scores 20 and 30 the scheduler receives 30.
\<close>

theorem after_epoch_metric_witness:
  "after_epoch_callback (state0\<lparr>eval_scores := [20, 30]\<rparr>) trainer0 =
     (\<lparr>epoch = 1, step = 0, eval_scores = [20, 30]\<rparr>,
      \<lparr>buffered = empty_stats, trace = [LogInfo ''Finished epoch'', LrStep 1 (Some 30)]\<rparr>)"
  using after_epoch_metric [of "state0\<lparr>eval_scores := [20, 30]\<rparr>" trainer0]
  by (simp add: state0_def trainer0_def)

section \<open>The Shuffle stage\<close>

text \<open>
  C5, as the code has it. \<open>get_train_iterator\<close> tests \<open>shuffle != 0\<close>: the chain has no
  \<open>Shuffle\<close> stage exactly for \<open>args.shuffle = 0\<close>, and for every other value, negative
  ones included, it has one \<open>Shuffle\<close> stage whose \<open>shufsize\<close> is that value.
\<close>

theorem shuffle_stage_iff_nonzero:
  "get_train_iterator ar = Inr ds \<Longrightarrow>
     shuffle_sizes ds = (if shuffle ar = 0 then [] else [shuffle ar])"
  by (auto simp: get_train_iterator_def Let_def split: if_splits option.splits)

text \<open>
  C5 as stated fails: for \<open>args.shuffle = -1\<close> the chain is a \<open>Shuffle\<close> stage with
  \<open>shufsize = -1\<close> around the zipped and selected readers.
\<close>

theorem negative_shuffle_counterexample:
  "shuffle (args2\<lparr>shuffle := -1\<rparr>) \<le> 0 \<and>
   get_train_iterator (args2\<lparr>shuffle := -1\<rparr>)
     = Inr (Shuffle (Select (Zip [TextLine ''train.src'', TextLine ''train.trg''])) (-1))"
  by (simp add: get_train_iterator_def args2_def)

text \<open>
  The chains for \<open>args.shuffle = 0\<close> and \<open>args.shuffle = -1\<close>.
\<close>

theorem shuffle_stage_iff_nonzero_witness:
  "shuffle_sizes (Select (Zip [TextLine ''train.src'', TextLine ''train.trg''])) = []
   \<and> shuffle_sizes (Shuffle (Select (Zip [TextLine ''train.src'', TextLine ''train.trg''])) (-1)) = [-1]"
  using shuffle_stage_iff_nonzero [of args2 "Select (Zip [TextLine ''train.src'', TextLine ''train.trg''])"]
    shuffle_stage_iff_nonzero [of "args2\<lparr>shuffle := -1\<rparr>" "Shuffle (Select (Zip [TextLine ''train.src'', TextLine ''train.trg''])) (-1)"]
  by (simp add: get_train_iterator_def args2_def)

section \<open>Fatal exceptions\<close>




section \<open>Forward pass and resource exhaustion\<close>

text \<open>
  C7. When the criterion raises an out-of-memory \<open>RuntimeError\<close> in training mode, the
  forward step returns normally with no loss, sample size 0, the unmodified base logging
  output and OOM flag 1, having logged one warning; in evaluation mode the same error
  leaves the method, and an exception that is not an out-of-memory \<open>RuntimeError\<close>
  leaves it in both modes.
\<close>

theorem forward_oom_policy:
  "(criterion_res oc = Inl e \<and> is_oom e \<longrightarrow>
      forward oc tr (Some s) False =
        (Inr (None, 0, base_logging_output (Some s), 1),
         tr\<lparr>trace := trace tr @ [ModelTrain, CriterionCall,
               LogWarn ''Ran out of memory during forward, skipping batch'']\<rparr>)
      \<and> fst (forward oc tr (Some s) True) = Inl e)
   \<and> (criterion_res oc = Inl e \<and> \<not> is_oom e \<longrightarrow>
        fst (forward oc tr (Some s) eval) = Inl e)"
  by (cases e) (auto simp: forward_def emit_def Let_def)

text \<open>
  An out-of-memory error in both modes, and a shape error in training mode.
\<close>

theorem forward_oom_policy_witness:
  "forward \<lparr>criterion_res = Inl (RuntimeError ''CUDA out of memory''), backward_res = None,
            scale_clip_res = Inr None, optimizer_step_res = None, evaluate_res = 0\<rparr>
     \<lparr>buffered = empty_stats, trace = []\<rparr> (Some \<lparr>ntokens = 7, nsentences = 2\<rparr>) False
   = (Inr (None, 0, [(''ntokens'', 7), (''nsentences'', 2)], 1),
      \<lparr>buffered = empty_stats,
       trace = [ModelTrain, CriterionCall,
                LogWarn ''Ran out of memory during forward, skipping batch'']\<rparr>)
   \<and> fst (forward \<lparr>criterion_res = Inl (RuntimeError ''CUDA out of memory''), backward_res = None,
            scale_clip_res = Inr None, optimizer_step_res = None, evaluate_res = 0\<rparr>
     \<lparr>buffered = empty_stats, trace = []\<rparr> (Some \<lparr>ntokens = 7, nsentences = 2\<rparr>) True)
     = Inl (RuntimeError ''CUDA out of memory'')
   \<and> fst (forward \<lparr>criterion_res = Inl (RuntimeError ''shape mismatch''), backward_res = None,
            scale_clip_res = Inr None, optimizer_step_res = None, evaluate_res = 0\<rparr>
     \<lparr>buffered = empty_stats, trace = []\<rparr> (Some \<lparr>ntokens = 7, nsentences = 2\<rparr>) False)
     = Inl (RuntimeError ''shape mismatch'')"
  using forward_oom_policy
    [of "\<lparr>criterion_res = Inl (RuntimeError ''CUDA out of memory''), backward_res = None,
          scale_clip_res = Inr None, optimizer_step_res = None, evaluate_res = 0\<rparr>"
        "RuntimeError ''CUDA out of memory''"
        "\<lparr>buffered = empty_stats, trace = []\<rparr>" "\<lparr>ntokens = 7, nsentences = 2\<rparr>" False]
    forward_oom_policy
    [of "\<lparr>criterion_res = Inl (RuntimeError ''shape mismatch''), backward_res = None,
          scale_clip_res = Inr None, optimizer_step_res = None, evaluate_res = 0\<rparr>"
        "RuntimeError ''shape mismatch''"
        "\<lparr>buffered = empty_stats, trace = []\<rparr>" "\<lparr>ntokens = 7, nsentences = 2\<rparr>" False]
  by (simp add: base_logging_output_def)

section \<open>The stopping predicate\<close>

text \<open>
  C8. The predicate of the loop holds exactly when no \<open>min_lr\<close> is configured or the
  current learning rate is strictly above it, the epoch is below \<open>max_epoch\<close> and the global
  step is below \<open>max_step\<close>, where a bound that is \<open>None\<close> or 0 is infinity
  (\<open>args.max_epoch or math.inf\<close>). The loop tests it before each epoch: with the predicate
  false it ends at once and leaves state and trainer as they are, with the predicate true
  it runs the next epoch between the two hooks and tests again; it ends as finished only
  in a state where the predicate is false, and uses up the supplied epochs only in a state
  where it is true.
\<close>

theorem stopping_predicate:
  "(predicate co ar st tr \<longleftrightarrow>
      (min_lr ar = None \<or> (\<exists>m. min_lr ar = Some m \<and> get_lr co (trace tr) > m))
      \<and> (max_epoch ar = None \<or> max_epoch ar = Some 0
           \<or> (\<exists>m. max_epoch ar = Some m \<and> epoch st < m))
      \<and> (max_step ar = None \<or> max_step ar = Some 0
           \<or> (\<exists>m. max_step ar = Some m \<and> step st < m)))
   \<and> (\<not> predicate co ar st tr \<longrightarrow> main_loop co ar eps st tr = (Finished, st, tr))
   \<and> (predicate co ar st tr \<longrightarrow>
        main_loop co ar (ep # eps) st tr =
          (case run_epoch co ar ep st (before_epoch_callback st tr) of
             (Inl e, st1, tr1) \<Rightarrow> (Raised e, st1, tr1)
           | (Inr u, st1, tr1) \<Rightarrow>
               main_loop co ar eps (fst (after_epoch_callback st1 tr1))
                 (snd (after_epoch_callback st1 tr1))))
   \<and> (main_loop co ar eps st tr = (Finished, st', tr') \<longrightarrow> \<not> predicate co ar st' tr')
   \<and> (main_loop co ar eps st tr = (Unfinished, st', tr') \<longrightarrow> predicate co ar st' tr')"
proof (intro conjI impI)
  show "predicate co ar st tr \<longleftrightarrow>
      (min_lr ar = None \<or> (\<exists>m. min_lr ar = Some m \<and> get_lr co (trace tr) > m))
      \<and> (max_epoch ar = None \<or> max_epoch ar = Some 0
           \<or> (\<exists>m. max_epoch ar = Some m \<and> epoch st < m))
      \<and> (max_step ar = None \<or> max_step ar = Some 0
           \<or> (\<exists>m. max_step ar = Some m \<and> step st < m))"
    by (rule predicate_iff)
next
  assume "\<not> predicate co ar st tr"
  then show "main_loop co ar eps st tr = (Finished, st, tr)" by (cases eps) simp_all
next
  assume "predicate co ar st tr"
  then show "main_loop co ar (ep # eps) st tr =
          (case run_epoch co ar ep st (before_epoch_callback st tr) of
             (Inl e, st1, tr1) \<Rightarrow> (Raised e, st1, tr1)
           | (Inr u, st1, tr1) \<Rightarrow>
               main_loop co ar eps (fst (after_epoch_callback st1 tr1))
                 (snd (after_epoch_callback st1 tr1)))"
    by (simp add: case_prod_beta split: sum.splits)
next
  assume "main_loop co ar eps st tr = (Finished, st', tr')"
  then show "\<not> predicate co ar st' tr'" by (rule main_loop_finished)
next
  assume "main_loop co ar eps st tr = (Unfinished, st', tr')"
  then show "predicate co ar st' tr'" by (rule main_loop_unfinished)
qed

text \<open>
  With \<open>max_epoch = 2\<close> and one batch per epoch, the loop runs two of three supplied
  epochs and stops; with one supplied epoch it is not finished.
\<close>

theorem stopping_predicate_witness:
  "predicate sum_collaborators (args2\<lparr>accumulate := 1\<rparr>) state0 trainer0
   \<and> \<not> predicate sum_collaborators (args2\<lparr>accumulate := 1\<rparr>) (state0\<lparr>epoch := 2\<rparr>) trainer0
   \<and> fst (main_loop sum_collaborators (args2\<lparr>accumulate := 1\<rparr>)
            [[(batch0, good)], [(batch0, good)], [(batch0, good)]] state0 trainer0) = Finished
   \<and> fst (snd (main_loop sum_collaborators (args2\<lparr>accumulate := 1\<rparr>)
            [[(batch0, good)], [(batch0, good)], [(batch0, good)]] state0 trainer0))
       = \<lparr>epoch = 2, step = 2, eval_scores = []\<rparr>
   \<and> fst (main_loop sum_collaborators (args2\<lparr>accumulate := 1\<rparr>)
            [[(batch0, good)]] state0 trainer0) = Unfinished"
  using stopping_predicate [of sum_collaborators "args2\<lparr>accumulate := 1\<rparr>" state0 trainer0
      "[[(batch0, good)], [(batch0, good)]]" "[(batch0, good)]"
      "\<lparr>epoch = 2, step = 2, eval_scores = []\<rparr>"
      "snd (snd (main_loop sum_collaborators (args2\<lparr>accumulate := 1\<rparr>)
            [[(batch0, good)], [(batch0, good)]] state0 trainer0))"]
    stopping_predicate [of sum_collaborators "args2\<lparr>accumulate := 1\<rparr>"
      "state0\<lparr>epoch := 2\<rparr>" trainer0 "[[(batch0, good)]]"]
    stopping_predicate [of sum_collaborators "args2\<lparr>accumulate := 1\<rparr>" state0 trainer0
      "[[(batch0, good)]]" "[]"
      "fst (snd (main_loop sum_collaborators (args2\<lparr>accumulate := 1\<rparr>)
            [[(batch0, good)]] state0 trainer0))"
      "snd (snd (main_loop sum_collaborators (args2\<lparr>accumulate := 1\<rparr>)
            [[(batch0, good)]] state0 trainer0))"]
  by (simp add: ex_defs run_defs loop_defs)

section \<open>The buffered stats\<close>

text \<open>
  What one call does to the buffer. A call of \<open>train_step\<close> that returns with
  \<open>update_params\<close> false returns \<open>None\<close> and has appended exactly one entry to each of the
  four stat lists. A call that returns with \<open>update_params\<close> true leaves the buffer empty,
  on the all-failed path, after a successful update and after an overflow alike; the
  logging output it returns, if any, aggregates the buffered logging outputs and that of
  the current micro-batch.
\<close>

theorem buffer_one_window:
  "(train_step co ar oc tr sm False = (Inr r, tr') \<longrightarrow>
      r = None
      \<and> (\<exists>ss lo f g. buffered tr' =
            \<lparr>sample_sizes = sample_sizes (buffered tr) @ [ss],
             logging_outputs = logging_outputs (buffered tr) @ [lo],
             ooms_fwd = ooms_fwd (buffered tr) @ [f],
             ooms_bwd = ooms_bwd (buffered tr) @ [g]\<rparr>))
   \<and> (train_step co ar oc tr sm True = (Inr r, tr') \<longrightarrow>
        buffered tr' = empty_stats
        \<and> (r = None \<or> (\<exists>lo. r = Some (aggregate_logging_outputs co
                                          (logging_outputs (buffered tr) @ [lo])))))"
proof (intro conjI impI)
  assume a: "train_step co ar oc tr sm False = (Inr r, tr')"
  from a show "r = None" by (rule train_step_returns) simp
  from a show "\<exists>ss lo f g. buffered tr' =
            \<lparr>sample_sizes = sample_sizes (buffered tr) @ [ss],
             logging_outputs = logging_outputs (buffered tr) @ [lo],
             ooms_fwd = ooms_fwd (buffered tr) @ [f],
             ooms_bwd = ooms_bwd (buffered tr) @ [g]\<rparr>"
    by (rule train_step_returns) (auto simp: buffer_append_def)
next
  assume a: "train_step co ar oc tr sm True = (Inr r, tr')"
  from a show "buffered tr' = empty_stats"
    by (rule train_step_returns) (auto dest: update_parameters_returns)
  from a show "r = None \<or> (\<exists>lo. r = Some (aggregate_logging_outputs co
                                          (logging_outputs (buffered tr) @ [lo])))"
    by (rule train_step_returns) (auto dest!: update_parameters_returns simp: buffer_append_def)
qed

text \<open>
  A buffering call followed by an updating call.
\<close>

theorem buffer_one_window_witness:
  "train_step sum_collaborators args2 good trainer0 (Some \<lparr>ntokens = 7, nsentences = 2\<rparr>) False
     = (Inr None,
        \<lparr>buffered = \<lparr>sample_sizes = [10],
                      logging_outputs = [[(''ntokens'', 7), (''nsentences'', 2), (''loss'', 2)]],
                      ooms_fwd = [0], ooms_bwd = [0]\<rparr>,
         trace = [WpsStart, ModelTrain, CriterionCall, LossBackward]\<rparr>)
   \<and> train_step sum_collaborators args2 good
        \<lparr>buffered = \<lparr>sample_sizes = [10],
                      logging_outputs = [[(''ntokens'', 7), (''nsentences'', 2), (''loss'', 2)]],
                      ooms_fwd = [0], ooms_bwd = [0]\<rparr>,
         trace = [WpsStart, ModelTrain, CriterionCall, LossBackward]\<rparr>
        (Some \<lparr>ntokens = 7, nsentences = 2\<rparr>) True
     = (Inr (Some [(''ntokens'', 14), (''per_word_loss'', 1), (''loss'', 1)]),
        \<lparr>buffered = empty_stats,
         trace = [WpsStart, ModelTrain, CriterionCall, LossBackward,
                  WpsStart, ModelTrain, CriterionCall, LossBackward,
                  ScaleClipGrad 20, OptimizerStep, OptimizerZeroGrad, WpsStop 14,
                  GnormUpdate 3, ClipUpdate 0, OomUpdate 0]\<rparr>)"
  using buffer_one_window [of sum_collaborators args2 good trainer0
      "Some \<lparr>ntokens = 7, nsentences = 2\<rparr>" None
      "\<lparr>buffered = \<lparr>sample_sizes = [10],
                      logging_outputs = [[(''ntokens'', 7), (''nsentences'', 2), (''loss'', 2)]],
                      ooms_fwd = [0], ooms_bwd = [0]\<rparr>,
         trace = [WpsStart, ModelTrain, CriterionCall, LossBackward]\<rparr>"]
    buffer_one_window [of sum_collaborators args2 good
      "\<lparr>buffered = \<lparr>sample_sizes = [10],
                      logging_outputs = [[(''ntokens'', 7), (''nsentences'', 2), (''loss'', 2)]],
                      ooms_fwd = [0], ooms_bwd = [0]\<rparr>,
         trace = [WpsStart, ModelTrain, CriterionCall, LossBackward]\<rparr>"
      "Some \<lparr>ntokens = 7, nsentences = 2\<rparr>"
      "Some [(''ntokens'', 14), (''per_word_loss'', 1), (''loss'', 1)]"
      "\<lparr>buffered = empty_stats,
         trace = [WpsStart, ModelTrain, CriterionCall, LossBackward,
                  WpsStart, ModelTrain, CriterionCall, LossBackward,
                  ScaleClipGrad 20, OptimizerStep, OptimizerZeroGrad, WpsStop 14,
                  GnormUpdate 3, ClipUpdate 0, OomUpdate 0]\<rparr>"]
  by (simp add: ex_defs run_defs)

text \<open>
  C9. The buffer is emptied only by a call with \<open>update_params\<close> true, and the control
  loop makes none once a call buffers (the step counter it tests stands still). So over an
  epoch that starts with a buffering call and ends without an exception, each of the four
  stat lists grows by one entry per batch: with more batches than \<open>accumulate\<close> the buffer
  holds more micro-batches than one accumulation window, where the claim has it never span
  more than one.
\<close>

theorem buffer_outgrows_window:
  assumes "accumulate ar \<noteq> 0" and "0 < (step st + 1) mod accumulate ar"
    and "run_epoch co ar bos st tr = (Inr (), st', tr')"
  shows "length (sample_sizes (buffered tr')) = length (sample_sizes (buffered tr)) + length bos
         \<and> length (logging_outputs (buffered tr'))
             = length (logging_outputs (buffered tr)) + length bos
         \<and> length (ooms_fwd (buffered tr')) = length (ooms_fwd (buffered tr)) + length bos
         \<and> length (ooms_bwd (buffered tr')) = length (ooms_bwd (buffered tr)) + length bos
         \<and> (accumulate ar < int (length bos) \<longrightarrow>
              accumulate ar < int (length (logging_outputs (buffered tr'))))"
  using assms(3)
proof (induction bos arbitrary: tr)
  case Nil
  then show ?case by simp
next
  case (Cons bo bos)
  obtain r1 st1 tr1 where ms: "main_step co ar bo st tr = (r1, st1, tr1)"
    by (cases "main_step co ar bo st tr")
  with Cons.prems obtain u where r1: "r1 = Inr u" by (cases r1) auto
  from main_step_buffering_frame [OF assms(1,2) ms] have st1: "st1 = st" by simp
  from ms r1 st1 have ms': "main_step co ar bo st tr = (Inr (), st, tr1)" by simp
  from ms r1 st1 Cons.prems have run: "run_epoch co ar bos st tr1 = (Inr (), st', tr')" by simp
  from Cons.IH [OF run] main_step_buffering_lengths [OF assms(1,2) ms']
  show ?case by simp
qed

text \<open>
  With \<open>accumulate = 2\<close> from step 0, three good batches leave three buffered entries.
\<close>

theorem buffer_outgrows_window_witness:
  "accumulate args2 = 2 \<and> 0 < (step state0 + 1) mod accumulate args2
   \<and> fst (run_epoch sum_collaborators args2 [(batch0, good), (batch0, good), (batch0, good)]
            state0 trainer0) = Inr ()
   \<and> buffered (snd (snd (run_epoch sum_collaborators args2
            [(batch0, good), (batch0, good), (batch0, good)] state0 trainer0)))
       = \<lparr>sample_sizes = [10, 10, 10],
          logging_outputs =
            [[(''ntokens'', 7), (''nsentences'', 2), (''loss'', 2)],
             [(''ntokens'', 7), (''nsentences'', 2), (''loss'', 2)],
             [(''ntokens'', 7), (''nsentences'', 2), (''loss'', 2)]],
          ooms_fwd = [0, 0, 0], ooms_bwd = [0, 0, 0]\<rparr>"
  using buffer_outgrows_window
    [where ar = args2 and st = state0 and co = sum_collaborators
       and bos = "[(batch0, good), (batch0, good), (batch0, good)]" and tr = trainer0
       and st' = "fst (snd (run_epoch sum_collaborators args2
            [(batch0, good), (batch0, good), (batch0, good)] state0 trainer0))"
       and tr' = "snd (snd (run_epoch sum_collaborators args2
            [(batch0, good), (batch0, good), (batch0, good)] state0 trainer0))"]
  by (simp add: ex_defs run_defs)

section \<open>Override leaves its arguments alone\<close>

text \<open>
  C10. \<open>override\<close> on two namespaces, in either mode: every object that was on the heap
  before the call is unchanged after it, the two arguments in particular, whether the call
  returns or raises \<open>AttributeError\<close>. When it returns, the result is a new namespace
  in which every attribute that is \<open>None\<close> in \<open>config_from\<close> reads as it does in
  \<open>config_to\<close>.
\<close>

theorem override_frame:
  assumes "a_to < length h" and "a_from < length h"
    and "distinct (map fst (h ! a_from))"
    and "override h (NsRef a_to) (NsRef a_from) only_override_null = (r, h')"
  shows "take (length h) h' = h
         \<and> (\<forall>c. r = Inr c \<longrightarrow>
               c = NsRef (length h) \<and> length h < length h'
               \<and> (\<forall>k. map_of (h ! a_from) k = Some PNone \<longrightarrow>
                      map_of (h' ! length h) k = map_of (h ! a_to) k))"
proof -
  define h2 where "h2 = h @ [h ! a_to, h ! a_from]"
  obtain r0 h3 where run: "override_items only_override_null (length h) (h ! a_from) h2 = (r0, h3)"
    by (cases "override_items only_override_null (length h) (h ! a_from) h2")
  have h2_to: "h2 ! length h = h ! a_to" and h2_from: "h2 ! Suc (length h) = h ! a_from"
    by (simp_all add: h2_def nth_append)
  from assms(4) assms(1,2) run have res: "h' = h3" "r = (case r0 of Inl e \<Rightarrow> Inl e | Inr u \<Rightarrow> Inr (NsRef (length h)))"
    by (auto simp: override_def deepcopy_def nth_append h2_def split: sum.splits)
  from override_items_frame [OF run]
  have len: "length h3 = length h2" and other: "\<And>i. i \<noteq> length h \<Longrightarrow> h3 ! i = h2 ! i"
    by simp_all
  have "take (length h) h3 = h"
  proof (rule nth_equalityI)
    show "length (take (length h) h3) = length h" using len by (simp add: h2_def)
  next
    fix i assume "i < length (take (length h) h3)"
    then have i: "i < length h" by simp
    then have "h3 ! i = h2 ! i" using other [of i] by simp
    with i show "take (length h) h3 ! i = h ! i" by (simp add: h2_def nth_append)
  qed
  moreover have "map_of (h3 ! length h) k = map_of (h ! a_to) k"
    if "map_of (h ! a_from) k = Some PNone" for k
  proof -
    have "map_of (h3 ! length h) k = map_of (h2 ! length h) k"
    proof (rule override_items_keeps [OF _ run])
      show "length h < length h2" by (simp add: h2_def)
    next
      fix v assume "(k, v) \<in> set (h ! a_from)"
      with assms(3) that show "v = PNone" by (rule none_only)
    qed
    then show ?thesis by (simp add: h2_to)
  qed
  moreover have "length h < length h3" using len by (simp add: h2_def)
  ultimately show ?thesis using res by (auto split: sum.splits)
qed

text \<open>
  \<open>seed\<close> is \<open>None\<close> in \<open>config_from\<close> and keeps the value of \<open>config_to\<close>.
\<close>

theorem override_frame_witness:
  "override [[(''lr'', PNone), (''seed'', PInt 1)], [(''lr'', PInt 5), (''seed'', PNone)]]
     (NsRef 0) (NsRef 1) True
   = (Inr (NsRef 2),
      [[(''lr'', PNone), (''seed'', PInt 1)], [(''lr'', PInt 5), (''seed'', PNone)],
       [(''lr'', PInt 5), (''seed'', PInt 1)], [(''lr'', PInt 5), (''seed'', PNone)]])
   \<and> map_of ([(''lr'', PInt 5), (''seed'', PInt 1)]) ''seed'' = map_of [(''lr'', PNone), (''seed'', PInt 1)] ''seed''"
  using override_frame [of 0 "[[(''lr'', PNone), (''seed'', PInt 1)], [(''lr'', PInt 5), (''seed'', PNone)]]"
      1 True "Inr (NsRef 2)"
      "[[(''lr'', PNone), (''seed'', PInt 1)], [(''lr'', PInt 5), (''seed'', PNone)],
       [(''lr'', PInt 5), (''seed'', PInt 1)], [(''lr'', PInt 5), (''seed'', PNone)]]"]
  by (simp add: override_def deepcopy_def setattr_def)

end
